theory Spec2Isabelle
  imports Main "HOL-Library.Tree"
begin

unbundle bit_operations_syntax

section \<open>Data model\<close>

text \<open>
  The container is a C++ class template over the key type, the value type and an unsigned
  index type of 16, 32 or 64 bits. The template parameter \<open>BitLength\<close> becomes the first
  argument \<open>b\<close> of every operation. Indices are natural numbers; every index the code
  stores is either a slot position below \<open>nodeCount\<close> or the constant \<open>MaxNodeCount b\<close>,
  so the conversion from the 64-bit locals to the index type never truncates on the
  states considered here; where the code converts between two index types (\<open>NodeAssign\<close>)
  and where a 64-bit local can wrap (\<open>size<<1\<close>) the reduction is written out.
\<close>

datatype Color = Red | Black

record ('k, 'v) RBTreeNode =
  fatherIndex :: nat
  leftIndex :: nat
  rightIndex :: nat
  color :: Color
  key :: 'k
  val :: 'v

text \<open>
  The header \<open>struct RBTree\<close> followed by its flexible array member. The field \<open>size\<close> of
  the source is called \<open>arraySize\<close> here (the accessor of the class is \<open>ArraySize()\<close>).
\<close>

record ('k, 'v) RBTree =
  nodeCount :: nat
  rootIndex :: nat
  arraySize :: nat
  bitLength :: nat
  nodes :: "('k, 'v) RBTreeNode list"

definition MaxNodeCount :: "nat \<Rightarrow> nat" where
  "MaxNodeCount BitLength =
     (if BitLength = 16 then 0xFFFF
      else if BitLength = 32 then 0xFFFFFFFF
      else 0xFFFFFFFFFFFFFFFF)"

definition LeastNodeCount :: nat where
  "LeastNodeCount = 256"

datatype error = OutOfRange

subsection \<open>Field writes on the slot array\<close>

definition setFather :: "nat \<Rightarrow> nat \<Rightarrow> ('k, 'v) RBTreeNode list \<Rightarrow> ('k, 'v) RBTreeNode list" where
  "setFather i x ns = ns[i := (ns ! i)\<lparr>fatherIndex := x\<rparr>]"

definition setLeft :: "nat \<Rightarrow> nat \<Rightarrow> ('k, 'v) RBTreeNode list \<Rightarrow> ('k, 'v) RBTreeNode list" where
  "setLeft i x ns = ns[i := (ns ! i)\<lparr>leftIndex := x\<rparr>]"

definition setRight :: "nat \<Rightarrow> nat \<Rightarrow> ('k, 'v) RBTreeNode list \<Rightarrow> ('k, 'v) RBTreeNode list" where
  "setRight i x ns = ns[i := (ns ! i)\<lparr>rightIndex := x\<rparr>]"

definition setColor :: "nat \<Rightarrow> Color \<Rightarrow> ('k, 'v) RBTreeNode list \<Rightarrow> ('k, 'v) RBTreeNode list" where
  "setColor i c ns = ns[i := (ns ! i)\<lparr>color := c\<rparr>]"

definition setKey :: "nat \<Rightarrow> 'k \<Rightarrow> ('k, 'v) RBTreeNode list \<Rightarrow> ('k, 'v) RBTreeNode list" where
  "setKey i k ns = ns[i := (ns ! i)\<lparr>key := k\<rparr>]"

definition setVal :: "nat \<Rightarrow> 'v \<Rightarrow> ('k, 'v) RBTreeNode list \<Rightarrow> ('k, 'v) RBTreeNode list" where
  "setVal i v ns = ns[i := (ns ! i)\<lparr>val := v\<rparr>]"

section \<open>Construction, clearing, growth\<close>

text \<open>
  \<open>CreateSize\<close>: a request of 0 becomes 1, the request is masked with \<open>MaxNodeCount\<close>, the
  counters are zeroed (\<open>rootIndex\<close> is set to 0) and the slots are whatever a fresh
  allocation followed by \<open>PlacementNew\<close> holds: the argument \<open>fresh\<close>. The outcome of
  \<open>malloc\<close> is an input of the model at the places where the source tests it.
\<close>

definition CreateSize :: "nat \<Rightarrow> ('k, 'v) RBTreeNode \<Rightarrow> nat \<Rightarrow> ('k, 'v) RBTree" where
  "CreateSize b fresh sz =
     (let sz = (if sz = 0 then 1 else sz) in
      \<lparr>nodeCount = 0, rootIndex = 0, arraySize = sz AND MaxNodeCount b, bitLength = b,
       nodes = replicate (sz AND MaxNodeCount b) fresh\<rparr>)"

text \<open>The constructor \<open>RBTreeArray(uint64_t size)\<close>; the exception is the left summand.\<close>

definition RBTreeArray :: "nat \<Rightarrow> ('k, 'v) RBTreeNode \<Rightarrow> nat \<Rightarrow> error + ('k, 'v) RBTree" where
  "RBTreeArray b fresh sz =
     (if sz > MaxNodeCount b then Inl OutOfRange else Inr (CreateSize b fresh sz))"

text \<open>
  \<open>PlacementDelete\<close> and \<open>PlacementNew\<close> return at once when the key type and the value type are
  both fundamental (the argument \<open>fundamental\<close>); otherwise they destroy and
  default-construct the key and the value of the first \<open>size\<close> slots, which then hold the key
  and the value of \<open>fresh\<close>. \<open>Clear\<close> calls both on the whole array and resets the two
  counters; links and colors stay as they are.
\<close>

definition PlacementNew ::
  "bool \<Rightarrow> ('k, 'v) RBTreeNode \<Rightarrow> ('k, 'v) RBTreeNode list \<Rightarrow> nat \<Rightarrow> ('k, 'v) RBTreeNode list" where
  "PlacementNew fundamental fresh ns sz =
     (if fundamental then ns
      else map (\<lambda>index. if index < sz then (ns ! index)\<lparr>key := key fresh, val := val fresh\<rparr>
                         else ns ! index) [0..<length ns])"

definition Clear :: "bool \<Rightarrow> ('k, 'v) RBTreeNode \<Rightarrow> ('k, 'v) RBTree \<Rightarrow> ('k, 'v) RBTree" where
  "Clear fundamental fresh t =
     t\<lparr>nodes := PlacementNew fundamental fresh (nodes t) (arraySize t),
       nodeCount := 0, rootIndex := 0\<rparr>"

text \<open>
  \<open>NodeAssign\<close> copies \<open>count\<close> slots from a source array whose index type may differ; the
  three links are converted to the destination's index type, which keeps the low \<open>b\<close> bits.
\<close>

definition NodeAssign ::
  "nat \<Rightarrow> ('k, 'v) RBTreeNode list \<Rightarrow> ('k, 'v) RBTreeNode list \<Rightarrow> nat \<Rightarrow> ('k, 'v) RBTreeNode list" where
  "NodeAssign b destination source count =
     map (\<lambda>index. if index < count
            then (source ! index)\<lparr>fatherIndex := fatherIndex (source ! index) mod 2 ^ b,
                                  leftIndex := leftIndex (source ! index) mod 2 ^ b,
                                  rightIndex := rightIndex (source ! index) mod 2 ^ b\<rparr>
            else destination ! index) [0..<length destination]"

definition Assign :: "nat \<Rightarrow> ('k, 'v) RBTree \<Rightarrow> ('k, 'v) RBTree \<Rightarrow> bool \<times> ('k, 'v) RBTree" where
  "Assign b destination source =
     (if nodeCount source > arraySize destination then (False, destination)
      else if bitLength source = 16 \<or> bitLength source = 32 \<or> bitLength source = 64 then
        (True, destination\<lparr>nodes := NodeAssign b (nodes destination) (nodes source) (nodeCount source),
                            nodeCount := nodeCount source, rootIndex := rootIndex source\<rparr>)
      else (False, destination))"

text \<open>
  \<open>NodeCreate\<close> appends a Red leaf at position \<open>nodeCount\<close>. When the array is full it is
  replaced by one of twice the size (the shift is on a 64-bit local), at most
  \<open>MaxNodeCount\<close>; the source does not test that allocation.
\<close>

definition NodeCreate ::
  "nat \<Rightarrow> ('k, 'v) RBTreeNode \<Rightarrow> nat \<Rightarrow> 'k \<Rightarrow> 'v \<Rightarrow> ('k, 'v) RBTree \<Rightarrow> nat \<times> ('k, 'v) RBTree" where
  "NodeCreate b fresh fatherIdx k v t =
     (let nc = nodeCount t in
      if nc = arraySize t \<and> arraySize t = MaxNodeCount b then (MaxNodeCount b, t)
      else
        let t = (if nc = arraySize t then
                   let sz = (2 * arraySize t) mod 2 ^ 64;
                       sz = (if sz > MaxNodeCount b then MaxNodeCount b else sz)
                   in snd (Assign b (CreateSize b fresh sz) t)
                 else t);
            t = t\<lparr>nodes := (nodes t)[nc := \<lparr>fatherIndex = fatherIdx, leftIndex = MaxNodeCount b,
                      rightIndex = MaxNodeCount b, color = Red, key = k, val = v\<rparr>]\<rparr>;
            t = t\<lparr>nodeCount := nodeCount t + 1\<rparr>
        in (nodeCount t - 1, t))"

section \<open>Insert\<close>

datatype RouteCase = RR | RL | LR | LL

definition GetRouteCase :: "('k, 'v) RBTreeNode list \<Rightarrow> nat \<Rightarrow> nat \<Rightarrow> nat \<Rightarrow> RouteCase" where
  "GetRouteCase ns current father grandfather =
     (if leftIndex (ns ! grandfather) = father then
        (if leftIndex (ns ! father) = current then LL else LR)
      else if leftIndex (ns ! father) = current then RL
      else RR)"

text \<open>
  The four rotation blocks of \<open>InsertCore\<close>, statement by statement. \<open>root\<close> is the
  position of the root when \<open>InsertCore\<close> was entered.
\<close>

definition InsertRotateRR :: "nat \<Rightarrow> ('k, 'v) RBTree \<Rightarrow> nat \<Rightarrow> nat \<Rightarrow> nat \<Rightarrow> ('k, 'v) RBTree" where
  "InsertRotateRR b t root father grandfather =
     (let M = MaxNodeCount b; ns = nodes t;
          ns = setRight grandfather (leftIndex (ns ! father)) ns;
          ns = (if rightIndex (ns ! grandfather) \<noteq> M
                then setFather (rightIndex (ns ! grandfather)) grandfather ns else ns);
          ns = setLeft father grandfather ns;
          greatGrandfather = fatherIndex (ns ! grandfather);
          ns = setFather grandfather father ns;
          ns = setFather father greatGrandfather ns;
          t = (if grandfather = root then t\<lparr>rootIndex := father, nodes := ns\<rparr>
               else if leftIndex (ns ! greatGrandfather) = grandfather
                 then t\<lparr>nodes := setLeft greatGrandfather father ns\<rparr>
                 else t\<lparr>nodes := setRight greatGrandfather father ns\<rparr>);
          ns = setColor father Black (nodes t);
          ns = setColor grandfather Red ns
      in t\<lparr>nodes := ns\<rparr>)"

definition InsertRotateRL :: "nat \<Rightarrow> ('k, 'v) RBTree \<Rightarrow> nat \<Rightarrow> nat \<Rightarrow> nat \<Rightarrow> nat \<Rightarrow> ('k, 'v) RBTree" where
  "InsertRotateRL b t root current father grandfather =
     (let M = MaxNodeCount b; ns = nodes t;
          ns = setLeft father (rightIndex (ns ! current)) ns;
          ns = (if leftIndex (ns ! father) \<noteq> M
                then setFather (leftIndex (ns ! father)) father ns else ns);
          ns = setRight grandfather (leftIndex (ns ! current)) ns;
          ns = (if rightIndex (ns ! grandfather) \<noteq> M
                then setFather (rightIndex (ns ! grandfather)) grandfather ns else ns);
          ns = setLeft current grandfather ns;
          ns = setRight current father ns;
          greatGrandfather = fatherIndex (ns ! grandfather);
          ns = setFather current greatGrandfather ns;
          ns = setFather father current ns;
          ns = setFather grandfather current ns;
          t = (if grandfather = root then t\<lparr>rootIndex := current, nodes := ns\<rparr>
               else if leftIndex (ns ! greatGrandfather) = grandfather
                 then t\<lparr>nodes := setLeft greatGrandfather current ns\<rparr>
                 else t\<lparr>nodes := setRight greatGrandfather current ns\<rparr>);
          ns = setColor current Black (nodes t);
          ns = setColor grandfather Red ns
      in t\<lparr>nodes := ns\<rparr>)"

definition InsertRotateLR :: "nat \<Rightarrow> ('k, 'v) RBTree \<Rightarrow> nat \<Rightarrow> nat \<Rightarrow> nat \<Rightarrow> nat \<Rightarrow> ('k, 'v) RBTree" where
  "InsertRotateLR b t root current father grandfather =
     (let M = MaxNodeCount b; ns = nodes t;
          ns = setRight father (leftIndex (ns ! current)) ns;
          ns = (if rightIndex (ns ! father) \<noteq> M
                then setFather (rightIndex (ns ! father)) father ns else ns);
          ns = setLeft grandfather (rightIndex (ns ! current)) ns;
          ns = (if leftIndex (ns ! grandfather) \<noteq> M
                then setFather (leftIndex (ns ! grandfather)) grandfather ns else ns);
          ns = setLeft current father ns;
          ns = setRight current grandfather ns;
          greatGrandfather = fatherIndex (ns ! grandfather);
          ns = setFather current greatGrandfather ns;
          ns = setFather father current ns;
          ns = setFather grandfather current ns;
          t = (if grandfather = root then t\<lparr>rootIndex := current, nodes := ns\<rparr>
               else if leftIndex (ns ! greatGrandfather) = grandfather
                 then t\<lparr>nodes := setLeft greatGrandfather current ns\<rparr>
                 else t\<lparr>nodes := setRight greatGrandfather current ns\<rparr>);
          ns = setColor current Black (nodes t);
          ns = setColor grandfather Red ns
      in t\<lparr>nodes := ns\<rparr>)"

definition InsertRotateLL :: "nat \<Rightarrow> ('k, 'v) RBTree \<Rightarrow> nat \<Rightarrow> nat \<Rightarrow> nat \<Rightarrow> ('k, 'v) RBTree" where
  "InsertRotateLL b t root father grandfather =
     (let M = MaxNodeCount b; ns = nodes t;
          ns = setLeft grandfather (rightIndex (ns ! father)) ns;
          ns = (if leftIndex (ns ! grandfather) \<noteq> M
                then setFather (leftIndex (ns ! grandfather)) grandfather ns else ns);
          ns = setRight father grandfather ns;
          greatGrandfather = fatherIndex (ns ! grandfather);
          ns = setFather father greatGrandfather ns;
          ns = setFather grandfather father ns;
          t = (if root = grandfather then t\<lparr>rootIndex := father, nodes := ns\<rparr>
               else if leftIndex (ns ! greatGrandfather) = grandfather
                 then t\<lparr>nodes := setLeft greatGrandfather father ns\<rparr>
                 else t\<lparr>nodes := setRight greatGrandfather father ns\<rparr>);
          ns = setColor father Black (nodes t);
          ns = setColor grandfather Red ns
      in t\<lparr>nodes := ns\<rparr>)"

text \<open>
  The block at the label \<open>redUncle\<close>: recolor, move \<open>current\<close> to the grandfather, and either
  stop (painting the root Black) or hand the next \<open>current\<close>, \<open>father\<close>, \<open>grandfather\<close> to
  the loop.
\<close>

definition redUncle ::
  "('k, 'v) RBTree \<Rightarrow> nat \<Rightarrow> nat \<Rightarrow> (bool \<times> ('k, 'v) RBTree) + (('k, 'v) RBTree \<times> nat \<times> nat \<times> nat)" where
  "redUncle t current grandfather =
     (let ns = nodes t;
          ns = setColor grandfather Red ns;
          ns = setColor (leftIndex (ns ! grandfather)) Black ns;
          ns = setColor (rightIndex (ns ! grandfather)) Black ns;
          current = fatherIndex (ns ! fatherIndex (ns ! current))
      in if current = rootIndex t \<or> fatherIndex (ns ! current) = rootIndex t
         then Inl (True, t\<lparr>nodes := setColor (rootIndex t) Black ns\<rparr>)
         else Inr (t\<lparr>nodes := ns\<rparr>, current, fatherIndex (ns ! current),
                   fatherIndex (ns ! fatherIndex (ns ! current))))"

text \<open>One pass through the body of the \<open>while\<close> loop of \<open>InsertCore\<close>.\<close>

definition InsertCoreBody ::
  "nat \<Rightarrow> ('k, 'v) RBTree \<Rightarrow> nat \<Rightarrow> nat \<Rightarrow> nat \<Rightarrow> nat
     \<Rightarrow> (bool \<times> ('k, 'v) RBTree) + (('k, 'v) RBTree \<times> nat \<times> nat \<times> nat)" where
  "InsertCoreBody b t root current father grandfather =
     (let M = MaxNodeCount b; ns = nodes t in
      case GetRouteCase ns current father grandfather of
        RR \<Rightarrow>
          if leftIndex (ns ! grandfather) \<noteq> M \<and> color (ns ! leftIndex (ns ! grandfather)) = Red
          then redUncle t current grandfather
          else Inl (True, InsertRotateRR b t root father grandfather)
      | RL \<Rightarrow>
          if leftIndex (ns ! grandfather) \<noteq> M \<and> color (ns ! leftIndex (ns ! grandfather)) = Red
          then redUncle t current grandfather
          else Inl (True, InsertRotateRL b t root current father grandfather)
      | LR \<Rightarrow>
          if rightIndex (ns ! grandfather) \<noteq> M \<and> color (ns ! rightIndex (ns ! grandfather)) = Red
          then redUncle t current grandfather
          else Inl (True, InsertRotateLR b t root current father grandfather)
      | LL \<Rightarrow>
          if rightIndex (ns ! grandfather) \<noteq> M \<and> color (ns ! rightIndex (ns ! grandfather)) = Red
          then redUncle t current grandfather
          else Inl (True, InsertRotateLL b t root father grandfather))"

partial_function (option) InsertCore ::
  "nat \<Rightarrow> ('k, 'v) RBTree \<Rightarrow> nat \<Rightarrow> nat \<Rightarrow> nat \<Rightarrow> nat \<Rightarrow> (bool \<times> ('k, 'v) RBTree) option" where
  "InsertCore b t root current father grandfather =
     (if color (nodes t ! current) = Red \<and> color (nodes t ! father) = Red then
        (case InsertCoreBody b t root current father grandfather of
           Inl r \<Rightarrow> Some r
         | Inr (t', current', father', grandfather') \<Rightarrow>
             InsertCore b t' root current' father' grandfather')
      else Some (True, t))"

declare InsertCore.simps [code]

text \<open>
  The descent of \<open>Insert\<close>: it returns from \<open>Insert\<close> (a full tree, or an equal key whose
  value is overwritten) or leaves the loop with the position of the new leaf.
\<close>

datatype ('k, 'v) descent = Returned bool "('k, 'v) RBTree" | Created "('k, 'v) RBTree" nat

partial_function (option) InsertDescend ::
  "nat \<Rightarrow> ('k, 'v) RBTreeNode \<Rightarrow> 'k::linorder \<Rightarrow> 'v \<Rightarrow> ('k, 'v) RBTree \<Rightarrow> nat \<Rightarrow> ('k, 'v) descent option" where
  "InsertDescend b fresh k v t current =
     (if k > key (nodes t ! current) then
        (if rightIndex (nodes t ! current) = MaxNodeCount b then
           (if nodeCount t = MaxNodeCount b then Some (Returned False t)
            else
              let (rightIdx, t) = NodeCreate b fresh current k v t;
                  t = t\<lparr>nodes := setRight current rightIdx (nodes t)\<rparr>
              in Some (Created t rightIdx))
         else InsertDescend b fresh k v t (rightIndex (nodes t ! current)))
      else if k < key (nodes t ! current) then
        (if leftIndex (nodes t ! current) = MaxNodeCount b then
           (if nodeCount t = MaxNodeCount b then Some (Returned False t)
            else
              let (leftIdx, t) = NodeCreate b fresh current k v t;
                  t = t\<lparr>nodes := setLeft current leftIdx (nodes t)\<rparr>
              in Some (Created t leftIdx))
         else InsertDescend b fresh k v t (leftIndex (nodes t ! current)))
      else Some (Returned True (t\<lparr>nodes := setVal current v (nodes t)\<rparr>)))"

declare InsertDescend.simps [code]

definition Insert ::
  "nat \<Rightarrow> ('k, 'v) RBTreeNode \<Rightarrow> 'k::linorder \<Rightarrow> 'v \<Rightarrow> ('k, 'v) RBTree \<Rightarrow> (bool \<times> ('k, 'v) RBTree) option" where
  "Insert b fresh k v t =
     (if nodeCount t = 0 then
        let (root, t) = NodeCreate b fresh (MaxNodeCount b) k v t;
            t = t\<lparr>rootIndex := root\<rparr>;
            t = t\<lparr>nodes := setColor root Black (nodes t)\<rparr>
        in Some (True, t)
      else
        case InsertDescend b fresh k v t (rootIndex t) of
          None \<Rightarrow> None
        | Some (Returned r t') \<Rightarrow> Some (r, t')
        | Some (Created t' current) \<Rightarrow>
            let root = rootIndex t';
                father = fatherIndex (nodes t' ! current)
            in if fatherIndex (nodes t' ! father) \<noteq> MaxNodeCount b
               then InsertCore b t' root current father (fatherIndex (nodes t' ! father))
               else Some (True, t'))"

section \<open>Lookup\<close>

text \<open>
  The result of a lookup is \<open>Some None\<close> when the source returns \<open>false\<close> (its output
  arguments are then not written), \<open>Some (Some x)\<close> when it returns \<open>true\<close> after writing
  \<open>x\<close>, and \<open>None\<close> when the loop does not return.
\<close>

partial_function (option) SearchLoop ::
  "nat \<Rightarrow> ('k::linorder, 'v) RBTreeNode list \<Rightarrow> 'k \<Rightarrow> nat \<Rightarrow> 'v option option" where
  "SearchLoop M ns k current =
     (if k > key (ns ! current) then
        (if rightIndex (ns ! current) = M then Some None
         else SearchLoop M ns k (rightIndex (ns ! current)))
      else if k < key (ns ! current) then
        (if leftIndex (ns ! current) = M then Some None
         else SearchLoop M ns k (leftIndex (ns ! current)))
      else Some (Some (val (ns ! current))))"

declare SearchLoop.simps [code]

definition Search :: "nat \<Rightarrow> 'k::linorder \<Rightarrow> ('k, 'v) RBTree \<Rightarrow> 'v option option" where
  "Search b k t =
     (if nodeCount t = 0 then Some None
      else SearchLoop (MaxNodeCount b) (nodes t) k (rootIndex t))"

partial_function (option) leftmost :: "nat \<Rightarrow> ('k, 'v) RBTreeNode list \<Rightarrow> nat \<Rightarrow> nat option" where
  "leftmost M ns current =
     (if leftIndex (ns ! current) \<noteq> M then leftmost M ns (leftIndex (ns ! current))
      else Some current)"

declare leftmost.simps [code]

partial_function (option) rightmost :: "nat \<Rightarrow> ('k, 'v) RBTreeNode list \<Rightarrow> nat \<Rightarrow> nat option" where
  "rightmost M ns current =
     (if rightIndex (ns ! current) \<noteq> M then rightmost M ns (rightIndex (ns ! current))
      else Some current)"

declare rightmost.simps [code]

definition GetMin :: "nat \<Rightarrow> ('k, 'v) RBTree \<Rightarrow> ('k \<times> 'v) option option" where
  "GetMin b t =
     (if nodeCount t = 0 then Some None
      else case leftmost (MaxNodeCount b) (nodes t) (rootIndex t) of
             None \<Rightarrow> None
           | Some current \<Rightarrow> Some (Some (key (nodes t ! current), val (nodes t ! current))))"

definition GetMax :: "nat \<Rightarrow> ('k, 'v) RBTree \<Rightarrow> ('k \<times> 'v) option option" where
  "GetMax b t =
     (if nodeCount t = 0 then Some None
      else case rightmost (MaxNodeCount b) (nodes t) (rootIndex t) of
             None \<Rightarrow> None
           | Some current \<Rightarrow> Some (Some (key (nodes t ! current), val (nodes t ! current))))"

definition GetMinIndex :: "nat \<Rightarrow> ('k, 'v) RBTree \<Rightarrow> nat option" where
  "GetMinIndex b t =
     (if nodeCount t \<noteq> 0 then leftmost (MaxNodeCount b) (nodes t) (rootIndex t)
      else Some (MaxNodeCount b))"

definition GetMaxIndex :: "nat \<Rightarrow> ('k, 'v) RBTree \<Rightarrow> nat option" where
  "GetMaxIndex b t =
     (if nodeCount t \<noteq> 0 then rightmost (MaxNodeCount b) (nodes t) (rootIndex t)
      else Some (MaxNodeCount b))"

partial_function (option) SmallestGraterLoop ::
  "nat \<Rightarrow> ('k::linorder, 'v) RBTreeNode list \<Rightarrow> 'k \<Rightarrow> nat \<Rightarrow> nat \<Rightarrow> nat option" where
  "SmallestGraterLoop M ns k candidate current =
     (if k < key (ns ! current) then
        (if leftIndex (ns ! current) = M then Some current
         else SmallestGraterLoop M ns k current (leftIndex (ns ! current)))
      else
        (if rightIndex (ns ! current) = M then Some candidate
         else SmallestGraterLoop M ns k candidate (rightIndex (ns ! current))))"

declare SmallestGraterLoop.simps [code]

definition IndexSmallestGraterThan :: "nat \<Rightarrow> 'k::linorder \<Rightarrow> ('k, 'v) RBTree \<Rightarrow> nat option" where
  "IndexSmallestGraterThan b k t =
     (if nodeCount t = 0 then Some (MaxNodeCount b)
      else SmallestGraterLoop (MaxNodeCount b) (nodes t) k (MaxNodeCount b) (rootIndex t))"

partial_function (option) BiggestSmallerLoop ::
  "nat \<Rightarrow> ('k::linorder, 'v) RBTreeNode list \<Rightarrow> 'k \<Rightarrow> nat \<Rightarrow> nat \<Rightarrow> nat option" where
  "BiggestSmallerLoop M ns k candidate current =
     (if k > key (ns ! current) then
        (if rightIndex (ns ! current) = M then Some current
         else BiggestSmallerLoop M ns k current (rightIndex (ns ! current)))
      else
        (if leftIndex (ns ! current) = M then Some candidate
         else BiggestSmallerLoop M ns k candidate (leftIndex (ns ! current))))"

declare BiggestSmallerLoop.simps [code]

definition IndexBiggestSmallerThan :: "nat \<Rightarrow> 'k::linorder \<Rightarrow> ('k, 'v) RBTree \<Rightarrow> nat option" where
  "IndexBiggestSmallerThan b k t =
     (if nodeCount t = 0 then Some (MaxNodeCount b)
      else BiggestSmallerLoop (MaxNodeCount b) (nodes t) k (MaxNodeCount b) (rootIndex t))"

definition GetSmallestGraterThan :: "nat \<Rightarrow> 'k::linorder \<Rightarrow> ('k, 'v) RBTree \<Rightarrow> ('k \<times> 'v) option option" where
  "GetSmallestGraterThan b k t =
     (case IndexSmallestGraterThan b k t of
        None \<Rightarrow> None
      | Some index \<Rightarrow>
          if index \<noteq> MaxNodeCount b then Some (Some (key (nodes t ! index), val (nodes t ! index)))
          else Some None)"

definition GetBiggestSmallerThan :: "nat \<Rightarrow> 'k::linorder \<Rightarrow> ('k, 'v) RBTree \<Rightarrow> ('k \<times> 'v) option option" where
  "GetBiggestSmallerThan b k t =
     (case IndexBiggestSmallerThan b k t of
        None \<Rightarrow> None
      | Some index \<Rightarrow>
          if index \<noteq> MaxNodeCount b then Some (Some (key (nodes t ! index), val (nodes t ! index)))
          else Some None)"

section \<open>Delete\<close>

text \<open>
  \<open>FatherBrotherGrandFatherUpdate\<close> rewrites the first of the three indices held by
  \<open>DeleteCore\<close> (father, brother, grandfather) that names the slot being moved, and then
  re-checks the root. The pointers of the source always equal \<open>nodes\<close> plus the index, so
  the indices alone are kept. The result is the root index and the three indices.
\<close>

definition FatherBrotherGrandFatherUpdate ::
  "nat \<Rightarrow> nat \<Rightarrow> nat \<Rightarrow> nat \<times> nat \<times> nat \<Rightarrow> nat \<times> (nat \<times> nat \<times> nat)" where
  "FatherBrotherGrandFatherUpdate toMoveIndex toDeleteIndex root indexes =
     (case indexes of (myFatherIndex, myBrotherIndex, myGrandfatherIndex) \<Rightarrow>
        if myFatherIndex = toMoveIndex then
          (if root = toMoveIndex then toDeleteIndex else root,
           (toDeleteIndex, myBrotherIndex, myGrandfatherIndex))
        else if myBrotherIndex = toMoveIndex then
          (if root = toMoveIndex then toDeleteIndex else root,
           (myFatherIndex, toDeleteIndex, myGrandfatherIndex))
        else if myGrandfatherIndex = toMoveIndex then
          (if root = toMoveIndex then toDeleteIndex else root,
           (myFatherIndex, myBrotherIndex, toDeleteIndex))
        else (root, indexes))"

text \<open>
  \<open>DeleteNode\<close> unlinks the slot \<open>toDeleteIndex\<close> from \<open>father\<close> and, unless it is the last
  live slot, moves the last live slot into it, redirecting the links of its neighbours.
  The moved-from slot is left as it was (it is outside the live region afterwards).
\<close>

definition DeleteNode ::
  "nat \<Rightarrow> ('k, 'v) RBTree \<Rightarrow> nat \<Rightarrow> nat \<Rightarrow> nat \<times> nat \<times> nat
     \<Rightarrow> ('k, 'v) RBTree \<times> (nat \<times> nat \<times> nat)" where
  "DeleteNode b t father toDeleteIndex indexes =
     (let M = MaxNodeCount b; ns = nodes t;
          ns = (if leftIndex (ns ! father) = toDeleteIndex then setLeft father M ns
                else setRight father M ns);
          toMove = nodeCount t - 1
      in if toMove \<noteq> toDeleteIndex then
           let (ns, root) =
                 (if toMove \<noteq> rootIndex t then
                    (if leftIndex (ns ! fatherIndex (ns ! toMove)) = toMove
                     then setLeft (fatherIndex (ns ! toMove)) toDeleteIndex ns
                     else setRight (fatherIndex (ns ! toMove)) toDeleteIndex ns, rootIndex t)
                  else (ns, toDeleteIndex));
               (root, indexes) = FatherBrotherGrandFatherUpdate toMove toDeleteIndex root indexes;
               ns = (if leftIndex (ns ! toMove) \<noteq> M
                     then setFather (leftIndex (ns ! toMove)) toDeleteIndex ns else ns);
               ns = (if rightIndex (ns ! toMove) \<noteq> M
                     then setFather (rightIndex (ns ! toMove)) toDeleteIndex ns else ns);
               ns = ns[toDeleteIndex := ns ! toMove]
           in (t\<lparr>nodes := ns, rootIndex := root, nodeCount := nodeCount t - 1\<rparr>, indexes)
         else (t\<lparr>nodes := ns, nodeCount := nodeCount t - 1\<rparr>, indexes))"

text \<open>The \<open>if(!deleted)\<close> blocks in front of the rebalancing cases.\<close>

definition DeleteIfNot ::
  "nat \<Rightarrow> bool \<Rightarrow> ('k, 'v) RBTree \<Rightarrow> nat \<Rightarrow> nat \<Rightarrow> nat \<times> nat \<times> nat
     \<Rightarrow> ('k, 'v) RBTree \<times> (nat \<times> nat \<times> nat)" where
  "DeleteIfNot b deleted t father toDeleteIndex indexes =
     (if \<not> deleted then DeleteNode b t father toDeleteIndex indexes else (t, indexes))"

text \<open>The tail shared by the rotations of \<open>DeleteCore\<close>: hang \<open>newTop\<close> where \<open>myFatherIndex\<close> hung.\<close>

definition DeleteRelink :: "('k, 'v) RBTree \<Rightarrow> ('k, 'v) RBTreeNode list \<Rightarrow> nat \<Rightarrow> nat \<Rightarrow> nat \<Rightarrow> ('k, 'v) RBTree" where
  "DeleteRelink t ns myFatherIndex myGrandfatherIndex newTop =
     (if rootIndex t = myFatherIndex then t\<lparr>rootIndex := newTop, nodes := ns\<rparr>
      else if leftIndex (ns ! myGrandfatherIndex) = myFatherIndex
        then t\<lparr>nodes := setLeft myGrandfatherIndex newTop ns\<rparr>
        else t\<lparr>nodes := setRight myGrandfatherIndex newTop ns\<rparr>)"

text \<open>\<open>case RR\<close>: the brother is the right child, Black, with a Red right child.\<close>

definition DeleteCaseRR :: "nat \<Rightarrow> bool \<Rightarrow> ('k, 'v) RBTree \<Rightarrow> nat \<times> nat \<times> nat \<Rightarrow> ('k, 'v) RBTree" where
  "DeleteCaseRR b deleted t indexes =
     (case DeleteIfNot b deleted t (fst indexes) (leftIndex (nodes t ! fst indexes)) indexes of
        (t, (myFatherIndex, myBrotherIndex, myGrandfatherIndex)) \<Rightarrow>
        let M = MaxNodeCount b; ns = nodes t;
            ns = setColor (rightIndex (ns ! myBrotherIndex)) Black ns;
            ns = setColor myBrotherIndex (color (ns ! myFatherIndex)) ns;
            ns = setColor myFatherIndex Black ns;
            ns = setRight myFatherIndex (leftIndex (ns ! myBrotherIndex)) ns;
            ns = (if rightIndex (ns ! myFatherIndex) \<noteq> M
                  then setFather (rightIndex (ns ! myFatherIndex)) myFatherIndex ns else ns);
            ns = setLeft myBrotherIndex myFatherIndex ns;
            ns = setFather myFatherIndex myBrotherIndex ns;
            ns = setFather myBrotherIndex myGrandfatherIndex ns
        in DeleteRelink t ns myFatherIndex myGrandfatherIndex myBrotherIndex)"

text \<open>\<open>case RL\<close>: the brother is the right child, Black, with a Red left child.\<close>

definition DeleteCaseRL :: "nat \<Rightarrow> bool \<Rightarrow> ('k, 'v) RBTree \<Rightarrow> nat \<times> nat \<times> nat \<Rightarrow> ('k, 'v) RBTree" where
  "DeleteCaseRL b deleted t indexes =
     (case DeleteIfNot b deleted t (fst indexes) (leftIndex (nodes t ! fst indexes)) indexes of
        (t, (myFatherIndex, myBrotherIndex, myGrandfatherIndex)) \<Rightarrow>
        let M = MaxNodeCount b; ns = nodes t;
            leftChild = leftIndex (ns ! myBrotherIndex);
            ns = setColor leftChild (color (ns ! myFatherIndex)) ns;
            ns = setColor myFatherIndex Black ns;
            ns = setRight myFatherIndex (leftIndex (ns ! leftChild)) ns;
            ns = (if rightIndex (ns ! myFatherIndex) \<noteq> M
                  then setFather (rightIndex (ns ! myFatherIndex)) myFatherIndex ns else ns);
            ns = setLeft leftChild myFatherIndex ns;
            ns = setFather myFatherIndex leftChild ns;
            ns = setFather leftChild myGrandfatherIndex ns;
            t = DeleteRelink t ns myFatherIndex myGrandfatherIndex leftChild;
            ns = nodes t;
            ns = setLeft myBrotherIndex (rightIndex (ns ! leftChild)) ns;
            ns = (if leftIndex (ns ! myBrotherIndex) \<noteq> M
                  then setFather (leftIndex (ns ! myBrotherIndex)) myBrotherIndex ns else ns);
            ns = setRight leftChild myBrotherIndex ns;
            ns = setFather myBrotherIndex leftChild ns
        in t\<lparr>nodes := ns\<rparr>)"

text \<open>\<open>case LL\<close>: the brother is the left child, Black, with a Red left child.\<close>

definition DeleteCaseLL :: "nat \<Rightarrow> bool \<Rightarrow> ('k, 'v) RBTree \<Rightarrow> nat \<times> nat \<times> nat \<Rightarrow> ('k, 'v) RBTree" where
  "DeleteCaseLL b deleted t indexes =
     (case DeleteIfNot b deleted t (fst indexes) (rightIndex (nodes t ! fst indexes)) indexes of
        (t, (myFatherIndex, myBrotherIndex, myGrandfatherIndex)) \<Rightarrow>
        let M = MaxNodeCount b; ns = nodes t;
            ns = setColor (leftIndex (ns ! myBrotherIndex)) Black ns;
            ns = setColor myBrotherIndex (color (ns ! myFatherIndex)) ns;
            ns = setColor myFatherIndex Black ns;
            ns = setLeft myFatherIndex (rightIndex (ns ! myBrotherIndex)) ns;
            ns = (if leftIndex (ns ! myFatherIndex) \<noteq> M
                  then setFather (leftIndex (ns ! myFatherIndex)) myFatherIndex ns else ns);
            ns = setRight myBrotherIndex myFatherIndex ns;
            ns = setFather myFatherIndex myBrotherIndex ns;
            ns = setFather myBrotherIndex myGrandfatherIndex ns
        in DeleteRelink t ns myFatherIndex myGrandfatherIndex myBrotherIndex)"

text \<open>\<open>case LR\<close>: the brother is the left child, Black, with a Red right child.\<close>

definition DeleteCaseLR :: "nat \<Rightarrow> bool \<Rightarrow> ('k, 'v) RBTree \<Rightarrow> nat \<times> nat \<times> nat \<Rightarrow> ('k, 'v) RBTree" where
  "DeleteCaseLR b deleted t indexes =
     (case DeleteIfNot b deleted t (fst indexes) (rightIndex (nodes t ! fst indexes)) indexes of
        (t, (myFatherIndex, myBrotherIndex, myGrandfatherIndex)) \<Rightarrow>
        let M = MaxNodeCount b; ns = nodes t;
            rightChild = rightIndex (ns ! myBrotherIndex);
            ns = setColor rightChild (color (ns ! myFatherIndex)) ns;
            ns = setColor myFatherIndex Black ns;
            ns = setRight myBrotherIndex (leftIndex (ns ! rightChild)) ns;
            ns = (if rightIndex (ns ! myBrotherIndex) \<noteq> M
                  then setFather (rightIndex (ns ! myBrotherIndex)) myBrotherIndex ns else ns);
            ns = setLeft rightChild myBrotherIndex ns;
            ns = setFather myBrotherIndex rightChild ns;
            ns = setFather rightChild myGrandfatherIndex ns;
            t = DeleteRelink t ns myFatherIndex myGrandfatherIndex rightChild;
            ns = nodes t;
            ns = setLeft myFatherIndex (rightIndex (ns ! rightChild)) ns;
            ns = (if leftIndex (ns ! myFatherIndex) \<noteq> M
                  then setFather (leftIndex (ns ! myFatherIndex)) myFatherIndex ns else ns);
            ns = setRight rightChild myFatherIndex ns;
            ns = setFather myFatherIndex rightChild ns
        in t\<lparr>nodes := ns\<rparr>)"

text \<open>The two blocks for a Red brother; both jump back to \<open>doubleBlackFix\<close>.\<close>

definition DeleteRedBrotherRight :: "nat \<Rightarrow> ('k, 'v) RBTree \<Rightarrow> nat \<times> nat \<times> nat \<Rightarrow> ('k, 'v) RBTree" where
  "DeleteRedBrotherRight b t indexes =
     (case indexes of (myFatherIndex, myBrotherIndex, myGrandfatherIndex) \<Rightarrow>
        let M = MaxNodeCount b; ns = nodes t;
            ns = setColor myBrotherIndex Black ns;
            ns = setColor myFatherIndex Red ns;
            ns = setRight myFatherIndex (leftIndex (ns ! myBrotherIndex)) ns;
            ns = (if rightIndex (ns ! myFatherIndex) \<noteq> M
                  then setFather (rightIndex (ns ! myFatherIndex)) myFatherIndex ns else ns);
            ns = setFather myFatherIndex myBrotherIndex ns;
            ns = setLeft myBrotherIndex myFatherIndex ns;
            ns = setFather myBrotherIndex myGrandfatherIndex ns
        in DeleteRelink t ns myFatherIndex myGrandfatherIndex myBrotherIndex)"

definition DeleteRedBrotherLeft :: "nat \<Rightarrow> ('k, 'v) RBTree \<Rightarrow> nat \<times> nat \<times> nat \<Rightarrow> ('k, 'v) RBTree" where
  "DeleteRedBrotherLeft b t indexes =
     (case indexes of (myFatherIndex, myBrotherIndex, myGrandfatherIndex) \<Rightarrow>
        let M = MaxNodeCount b; ns = nodes t;
            ns = setColor myBrotherIndex Black ns;
            ns = setColor myFatherIndex Red ns;
            ns = setLeft myFatherIndex (rightIndex (ns ! myBrotherIndex)) ns;
            ns = (if leftIndex (ns ! myFatherIndex) \<noteq> M
                  then setFather (leftIndex (ns ! myFatherIndex)) myFatherIndex ns else ns);
            ns = setFather myFatherIndex myBrotherIndex ns;
            ns = setRight myBrotherIndex myFatherIndex ns;
            ns = setFather myBrotherIndex myGrandfatherIndex ns
        in DeleteRelink t ns myFatherIndex myGrandfatherIndex myBrotherIndex)"

text \<open>
  The block at the label \<open>brotherChildBothBlack\<close>: it returns, or continues the loop one
  level up with \<open>deleted\<close> set.
\<close>

definition brotherChildBothBlack ::
  "('k, 'v) RBTree \<Rightarrow> nat \<times> nat \<times> nat \<Rightarrow> ('k, 'v) RBTree + (('k, 'v) RBTree \<times> nat \<times> nat \<times> bool)" where
  "brotherChildBothBlack t indexes =
     (case indexes of (myFatherIndex, myBrotherIndex, myGrandfatherIndex) \<Rightarrow>
        let ns = setColor myBrotherIndex Red (nodes t) in
        if rootIndex t = myFatherIndex then Inl (t\<lparr>nodes := ns\<rparr>)
        else if color (ns ! myFatherIndex) = Red
          then Inl (t\<lparr>nodes := setColor myFatherIndex Black ns\<rparr>)
          else Inr (t\<lparr>nodes := ns\<rparr>, myFatherIndex, fatherIndex (ns ! myFatherIndex), True))"

text \<open>One pass from the label \<open>doubleBlackFix\<close> to a \<open>return\<close> or to the next jump to it.\<close>

definition doubleBlackBody ::
  "nat \<Rightarrow> ('k, 'v) RBTree \<Rightarrow> nat \<Rightarrow> nat \<Rightarrow> bool
     \<Rightarrow> ('k, 'v) RBTree + (('k, 'v) RBTree \<times> nat \<times> nat \<times> bool)" where
  "doubleBlackBody b t currentIndex myFatherIndex deleted =
     (let M = MaxNodeCount b; ns = nodes t;
          myGrandfatherIndex = fatherIndex (ns ! myFatherIndex)
      in if leftIndex (ns ! myFatherIndex) = currentIndex then
           let myBrotherIndex = rightIndex (ns ! myFatherIndex);
               indexes = (myFatherIndex, myBrotherIndex, myGrandfatherIndex)
           in if color (ns ! myBrotherIndex) = Black then
                if rightIndex (ns ! myBrotherIndex) \<noteq> M
                   \<and> color (ns ! rightIndex (ns ! myBrotherIndex)) = Red
                then Inl (DeleteCaseRR b deleted t indexes)
                else if leftIndex (ns ! myBrotherIndex) \<noteq> M
                   \<and> color (ns ! leftIndex (ns ! myBrotherIndex)) = Red
                then Inl (DeleteCaseRL b deleted t indexes)
                else (case DeleteIfNot b deleted t myFatherIndex (leftIndex (ns ! myFatherIndex)) indexes of
                        (t, indexes) \<Rightarrow> brotherChildBothBlack t indexes)
              else Inr (DeleteRedBrotherRight b t indexes, currentIndex, myFatherIndex, deleted)
         else
           let myBrotherIndex = leftIndex (ns ! myFatherIndex);
               indexes = (myFatherIndex, myBrotherIndex, myGrandfatherIndex)
           in if color (ns ! myBrotherIndex) = Black then
                if leftIndex (ns ! myBrotherIndex) \<noteq> M
                   \<and> color (ns ! leftIndex (ns ! myBrotherIndex)) = Red
                then Inl (DeleteCaseLL b deleted t indexes)
                else if rightIndex (ns ! myBrotherIndex) \<noteq> M
                   \<and> color (ns ! rightIndex (ns ! myBrotherIndex)) = Red
                then Inl (DeleteCaseLR b deleted t indexes)
                else (case DeleteIfNot b deleted t myFatherIndex (rightIndex (ns ! myFatherIndex)) indexes of
                        (t, indexes) \<Rightarrow> brotherChildBothBlack t indexes)
              else Inr (DeleteRedBrotherLeft b t indexes, currentIndex, myFatherIndex, deleted))"

partial_function (option) doubleBlackFix ::
  "nat \<Rightarrow> ('k, 'v) RBTree \<Rightarrow> nat \<Rightarrow> nat \<Rightarrow> bool \<Rightarrow> ('k, 'v) RBTree option" where
  "doubleBlackFix b t currentIndex myFatherIndex deleted =
     (case doubleBlackBody b t currentIndex myFatherIndex deleted of
        Inl t' \<Rightarrow> Some t'
      | Inr (t', currentIndex', myFatherIndex', deleted') \<Rightarrow>
          doubleBlackFix b t' currentIndex' myFatherIndex' deleted')"

declare doubleBlackFix.simps [code]

text \<open>
  A node with a single child: the child's key and value are copied into it and the child's
  slot is deleted.
\<close>

definition DeleteOnlyChild ::
  "nat \<Rightarrow> ('k, 'v) RBTree \<Rightarrow> nat \<Rightarrow> nat \<Rightarrow> nat \<times> nat \<times> nat \<Rightarrow> ('k, 'v) RBTree" where
  "DeleteOnlyChild b t currentIndex child indexes =
     (let ns = nodes t;
          ns = setKey currentIndex (key (ns ! child)) ns;
          ns = setVal currentIndex (val (ns ! child)) ns
      in fst (DeleteNode b (t\<lparr>nodes := ns\<rparr>) currentIndex child indexes))"

text \<open>From the label \<open>deleteBegin\<close>: \<open>current\<close> has no left child.\<close>

definition deleteBegin ::
  "nat \<Rightarrow> ('k, 'v) RBTree \<Rightarrow> nat \<Rightarrow> nat \<times> nat \<times> nat \<Rightarrow> ('k, 'v) RBTree option" where
  "deleteBegin b t currentIndex indexes =
     (let M = MaxNodeCount b; ns = nodes t in
      if rightIndex (ns ! currentIndex) = M then
        (if color (ns ! currentIndex) = Red
         then Some (fst (DeleteNode b t (fst indexes) currentIndex indexes))
         else doubleBlackFix b t currentIndex (fst indexes) False)
      else Some (DeleteOnlyChild b t currentIndex (rightIndex (ns ! currentIndex)) indexes))"

text \<open>From the label \<open>gotoRightSmallest\<close>: \<open>current\<close> has two children.\<close>

definition gotoRightSmallest ::
  "nat \<Rightarrow> ('k, 'v) RBTree \<Rightarrow> nat \<Rightarrow> ('k, 'v) RBTree option" where
  "gotoRightSmallest b t currentIndex =
     (let M = MaxNodeCount b; ns = nodes t in
      case leftmost M ns (rightIndex (ns ! currentIndex)) of
        None \<Rightarrow> None
      | Some rightSmallest \<Rightarrow>
          let ns = setKey currentIndex (key (ns ! rightSmallest)) ns;
              ns = setVal currentIndex (val (ns ! rightSmallest)) ns;
              myFatherIndex = fatherIndex (ns ! rightSmallest);
              myGrandfatherIndex = fatherIndex (ns ! myFatherIndex)
          in deleteBegin b (t\<lparr>nodes := ns\<rparr>) rightSmallest (myFatherIndex, M, myGrandfatherIndex))"

partial_function (option) DeleteFind ::
  "nat \<Rightarrow> ('k::linorder, 'v) RBTreeNode list \<Rightarrow> 'k \<Rightarrow> nat \<Rightarrow> nat option option" where
  "DeleteFind M ns k current =
     (if k > key (ns ! current) then
        (if rightIndex (ns ! current) = M then Some None
         else DeleteFind M ns k (rightIndex (ns ! current)))
      else if k < key (ns ! current) then
        (if leftIndex (ns ! current) = M then Some None
         else DeleteFind M ns k (leftIndex (ns ! current)))
      else Some (Some current))"

declare DeleteFind.simps [code]

text \<open>
  \<open>DeleteCore\<close>. Its second argument \<open>deleteIndex\<close> is an output that no caller reads; it is
  left out.
\<close>

definition DeleteCore ::
  "nat \<Rightarrow> 'k::linorder \<Rightarrow> ('k, 'v) RBTree \<Rightarrow> (bool \<times> ('k, 'v) RBTree) option" where
  "DeleteCore b k t =
     (let M = MaxNodeCount b; ns = nodes t in
      if nodeCount t = 1 then
        (if k = key (ns ! rootIndex t) then Some (True, t\<lparr>rootIndex := 0, nodeCount := 0\<rparr>)
         else Some (False, t))
      else
        case DeleteFind M ns k (rootIndex t) of
          None \<Rightarrow> None
        | Some None \<Rightarrow> Some (False, t)
        | Some (Some currentIndex) \<Rightarrow>
            let myFatherIndex = fatherIndex (ns ! currentIndex);
                indexes = (myFatherIndex, M, M)
            in map_option (Pair True)
              (if myFatherIndex = M then
                 (if leftIndex (ns ! currentIndex) = M
                  then Some (DeleteOnlyChild b t currentIndex (rightIndex (ns ! currentIndex)) indexes)
                  else if rightIndex (ns ! currentIndex) = M
                  then Some (DeleteOnlyChild b t currentIndex (leftIndex (ns ! currentIndex)) indexes)
                  else gotoRightSmallest b t currentIndex)
               else if leftIndex (ns ! currentIndex) = M then deleteBegin b t currentIndex indexes
               else if rightIndex (ns ! currentIndex) = M
                 then Some (DeleteOnlyChild b t currentIndex (leftIndex (ns ! currentIndex)) indexes)
               else gotoRightSmallest b t currentIndex))"

definition Delete ::
  "nat \<Rightarrow> 'k::linorder \<Rightarrow> ('k, 'v) RBTree \<Rightarrow> (bool \<times> ('k, 'v) RBTree) option" where
  "Delete b k t = (if nodeCount t = 0 then Some (False, t) else DeleteCore b k t)"

section \<open>Ordered iteration\<close>

text \<open>
  An ordered cursor holds a slot index and two flags; the tree it points into is the one
  passed to every operation.
\<close>

record OrderedIterator =
  currentIndex :: nat
  reachedBegin :: bool
  reachedEnd :: bool

definition OrderedEnd :: "nat \<Rightarrow> OrderedIterator" where
  "OrderedEnd b = \<lparr>currentIndex = MaxNodeCount b, reachedBegin = False, reachedEnd = True\<rparr>"

definition OrderedBegin :: "nat \<Rightarrow> ('k, 'v) RBTree \<Rightarrow> OrderedIterator option" where
  "OrderedBegin b t =
     (if nodeCount t = 0 then Some (OrderedEnd b)
      else case GetMinIndex b t of
             None \<Rightarrow> None
           | Some minIndex \<Rightarrow>
               Some \<lparr>currentIndex = minIndex, reachedBegin = False, reachedEnd = False\<rparr>)"

text \<open>
  The upward walk of \<open>operator++\<close>: \<open>Some None\<close> when the root is passed, \<open>Some (Some p)\<close>
  at the first ancestor \<open>p\<close> whose right child is not the node the walk came from.
\<close>

partial_function (option) climbFromRight :: "nat \<Rightarrow> ('k, 'v) RBTreeNode list \<Rightarrow> nat \<Rightarrow> nat option option" where
  "climbFromRight M ns current =
     (if fatherIndex (ns ! current) = M then Some None
      else if rightIndex (ns ! fatherIndex (ns ! current)) \<noteq> current
        then Some (Some (fatherIndex (ns ! current)))
        else climbFromRight M ns (fatherIndex (ns ! current)))"

declare climbFromRight.simps [code]

text \<open>The successor step shared by \<open>operator++\<close> and the medium tier of \<open>ConditionalDelete\<close>.\<close>

definition successorIndex :: "nat \<Rightarrow> ('k, 'v) RBTreeNode list \<Rightarrow> nat \<Rightarrow> nat option option" where
  "successorIndex M ns index =
     (if rightIndex (ns ! index) \<noteq> M
      then map_option Some (leftmost M ns (rightIndex (ns ! index)))
      else climbFromRight M ns index)"

definition OrderedNext :: "nat \<Rightarrow> ('k, 'v) RBTree \<Rightarrow> OrderedIterator \<Rightarrow> OrderedIterator option" where
  "OrderedNext b t it =
     (if nodeCount t \<noteq> 0 then
        (if reachedBegin it then
           (case GetMinIndex b t of
              None \<Rightarrow> None
            | Some minIndex \<Rightarrow> Some (it\<lparr>currentIndex := minIndex, reachedBegin := False\<rparr>))
         else if currentIndex it \<noteq> MaxNodeCount b then
           (case successorIndex (MaxNodeCount b) (nodes t) (currentIndex it) of
              None \<Rightarrow> None
            | Some None \<Rightarrow> Some (it\<lparr>reachedEnd := True, currentIndex := MaxNodeCount b\<rparr>)
            | Some (Some index) \<Rightarrow> Some (it\<lparr>currentIndex := index\<rparr>))
         else Some it)
      else Some it)"

text \<open>
  The client loop \<open>for(it=OrderedBegin(); it!=OrderedEnd(); ++it)\<close>, collecting
  \<open>it.Key()\<close> and \<open>it.Value()\<close> at every step.
\<close>

partial_function (option) OrderedCollect ::
  "nat \<Rightarrow> ('k, 'v) RBTree \<Rightarrow> OrderedIterator \<Rightarrow> ('k \<times> 'v) list option" where
  "OrderedCollect b t it =
     (if it \<noteq> OrderedEnd b then
        Option.bind (OrderedNext b t it) (\<lambda>it'.
        Option.bind (OrderedCollect b t it') (\<lambda>rest.
          Some ((key (nodes t ! currentIndex it), val (nodes t ! currentIndex it)) # rest)))
      else Some [])"

declare OrderedCollect.simps [code]

definition OrderedTraversal :: "nat \<Rightarrow> ('k, 'v) RBTree \<Rightarrow> ('k \<times> 'v) list option" where
  "OrderedTraversal b t = Option.bind (OrderedBegin b t) (OrderedCollect b t)"

section \<open>Conditional delete\<close>

text \<open>The first and the last loop of the sparse tier.\<close>

partial_function (option) sparseScan ::
  "nat \<Rightarrow> ('k::linorder \<Rightarrow> 'v \<Rightarrow> bool) \<Rightarrow> ('k, 'v) RBTree \<Rightarrow> nat \<Rightarrow> nat \<Rightarrow> (('k, 'v) RBTree \<times> nat) option" where
  "sparseScan b condition t index deleted =
     (if index < nodeCount t then
        (if condition (key (nodes t ! index)) (val (nodes t ! index)) then
           Option.bind (DeleteCore b (key (nodes t ! index)) t) (\<lambda>(r, t').
             sparseScan b condition t' (index + 1) (if r then deleted + 1 else deleted))
         else sparseScan b condition t (index + 1) deleted)
      else Some (t, deleted))"

declare sparseScan.simps [code]

fun deleteKeys ::
  "nat \<Rightarrow> 'k::linorder list \<Rightarrow> ('k, 'v) RBTree \<Rightarrow> nat \<Rightarrow> (('k, 'v) RBTree \<times> nat) option" where
  "deleteKeys b [] t deleted = Some (t, deleted)"
| "deleteKeys b (k # ks) t deleted =
     Option.bind (DeleteCore b k t) (\<lambda>(r, t').
       deleteKeys b ks t' (if r then deleted + 1 else deleted))"

definition sparseDelete ::
  "nat \<Rightarrow> ('k::linorder \<Rightarrow> 'v \<Rightarrow> bool) \<Rightarrow> ('k, 'v) RBTree \<Rightarrow> (('k, 'v) RBTree \<times> nat) option" where
  "sparseDelete b condition t =
     Option.bind (sparseScan b condition t 0 0) (\<lambda>(t, deleted).
       let toDelete = map (\<lambda>index. key (nodes t ! index))
                        (filter (\<lambda>index. condition (key (nodes t ! index)) (val (nodes t ! index)))
                           [0..<nodeCount t])
       in deleteKeys b toDelete t deleted)"

text \<open>The medium tier, from the label \<open>normalDelete\<close>.\<close>

partial_function (option) normalLoop ::
  "nat \<Rightarrow> ('k::linorder \<Rightarrow> 'v \<Rightarrow> bool) \<Rightarrow> ('k, 'v) RBTree \<Rightarrow> nat \<Rightarrow> nat \<Rightarrow> (('k, 'v) RBTree \<times> nat) option" where
  "normalLoop b condition t index deleted =
     (if index \<noteq> MaxNodeCount b then
        (if condition (key (nodes t ! index)) (val (nodes t ! index)) then
           Option.bind (DeleteCore b (key (nodes t ! index)) t) (\<lambda>(r, t').
           Option.bind (IndexSmallestGraterThan b (key (nodes t ! index)) t') (\<lambda>index'.
             normalLoop b condition t' index' (if r then deleted + 1 else deleted)))
         else
           Option.bind (successorIndex (MaxNodeCount b) (nodes t) index) (\<lambda>next.
             normalLoop b condition t (case next of None \<Rightarrow> MaxNodeCount b | Some i \<Rightarrow> i) deleted))
      else Some (t, deleted))"

declare normalLoop.simps [code]

definition normalDelete ::
  "nat \<Rightarrow> ('k::linorder \<Rightarrow> 'v \<Rightarrow> bool) \<Rightarrow> ('k, 'v) RBTree \<Rightarrow> (('k, 'v) RBTree \<times> nat) option" where
  "normalDelete b condition t =
     Option.bind (GetMinIndex b t) (\<lambda>index. normalLoop b condition t index 0)"

text \<open>The heavy tier: the slots that stay are inserted, in slot order, into a new tree.\<close>

fun insertAll ::
  "nat \<Rightarrow> ('k, 'v) RBTreeNode \<Rightarrow> ('k::linorder \<times> 'v) list \<Rightarrow> ('k, 'v) RBTree \<Rightarrow> ('k, 'v) RBTree option" where
  "insertAll b fresh [] t = Some t"
| "insertAll b fresh ((k, v) # kvs) t =
     Option.bind (Insert b fresh k v t) (\<lambda>(r, t'). insertAll b fresh kvs t')"

definition rebuildDelete ::
  "nat \<Rightarrow> ('k, 'v) RBTreeNode \<Rightarrow> nat list \<Rightarrow> ('k::linorder, 'v) RBTree \<Rightarrow> ('k, 'v) RBTree
     \<Rightarrow> (('k, 'v) RBTree \<times> nat) option" where
  "rebuildDelete b fresh notToDeleteIndeices t newTree =
     Option.bind
       (insertAll b fresh
          (map (\<lambda>index. (key (nodes t ! index), val (nodes t ! index))) notToDeleteIndeices) newTree)
       (\<lambda>newTree. Some (newTree, (nodeCount t - nodeCount newTree) mod 2 ^ 64))"

text \<open>
  \<open>ConditionalDelete\<close>. \<open>scratchOk\<close> and \<open>newTreeOk\<close> say whether the two allocations
  succeed. The rate is the quotient of two \<open>double\<close>s, compared with 0.25 and 0.5; the
  division is correctly rounded and both thresholds are \<open>double\<close>s, so for counts below
  \<open>2^53\<close> the comparisons are those of the exact quotient, written here without division.
  With no key stored the rate is 0/0, which is below neither threshold. The result is the
  new tree and the number returned; the exception of the constructor is the left summand.
\<close>

definition ConditionalDelete ::
  "nat \<Rightarrow> ('k, 'v) RBTreeNode \<Rightarrow> bool \<Rightarrow> bool \<Rightarrow> ('k::linorder \<Rightarrow> 'v \<Rightarrow> bool) \<Rightarrow> ('k, 'v) RBTree
     \<Rightarrow> (error + ('k, 'v) RBTree \<times> nat) option" where
  "ConditionalDelete b fresh scratchOk newTreeOk condition t =
     (if \<not> scratchOk then map_option Inr (normalDelete b condition t)
      else
        let live = [0..<nodeCount t];
            needToDelete = length (filter (\<lambda>index. condition (key (nodes t ! index)) (val (nodes t ! index))) live);
            notToDeleteIndeices = filter (\<lambda>index. \<not> condition (key (nodes t ! index)) (val (nodes t ! index))) live
        in if nodeCount t \<noteq> 0 \<and> 4 * needToDelete < nodeCount t
             then map_option Inr (sparseDelete b condition t)
           else if nodeCount t \<noteq> 0 \<and> 2 * needToDelete < nodeCount t
             then map_option Inr (normalDelete b condition t)
           else
             case RBTreeArray b fresh (arraySize t) of
               Inl e \<Rightarrow> Some (Inl e)
             | Inr newTree \<Rightarrow>
                 if \<not> newTreeOk then map_option Inr (normalDelete b condition t)
                 else map_option Inr (rebuildDelete b fresh notToDeleteIndeices t newTree))"

section \<open>Transform\<close>

text \<open>
  \<open>Transform\<close> of the target \<open>t\<close> from the tree \<open>another\<close>, whose index type may differ.
  \<open>allocOk\<close> says whether the allocation of a larger array succeeds.
\<close>

definition Transform ::
  "nat \<Rightarrow> ('k, 'v) RBTreeNode \<Rightarrow> bool \<Rightarrow> ('k, 'v) RBTree \<Rightarrow> ('k, 'v) RBTree \<Rightarrow> bool \<times> ('k, 'v) RBTree" where
  "Transform b fresh allocOk t another =
     (if arraySize another \<le> arraySize t then (True, snd (Assign b t another))
      else if arraySize another < MaxNodeCount b then
        (if \<not> allocOk then (False, t)
         else (True, snd (Assign b (CreateSize b fresh (arraySize another)) another)))
      else (False, t))"

section \<open>Reachable states\<close>

text \<open>
  The states a client can reach: a tree made by the constructor, followed by any number of
  \<open>Insert\<close>, \<open>Delete\<close> and \<open>Clear\<close> calls that return. \<open>Insert\<close> is considered on arrays
  of fewer than \<open>2^63\<close> slots: beyond that the doubling in \<open>NodeCreate\<close> wraps, and no such
  array fits the address space.
\<close>

inductive reachable :: "nat \<Rightarrow> ('k::linorder, 'v) RBTreeNode \<Rightarrow> ('k, 'v) RBTree \<Rightarrow> bool"
  for b :: nat and fresh :: "('k, 'v) RBTreeNode" where
  reachable_new: "RBTreeArray b fresh sz = Inr t \<Longrightarrow> reachable b fresh t"
| reachable_Insert:
    "reachable b fresh t \<Longrightarrow> arraySize t < 2 ^ 63 \<Longrightarrow> Insert b fresh k v t = Some (r, t')
     \<Longrightarrow> reachable b fresh t'"
| reachable_Delete:
    "reachable b fresh t \<Longrightarrow> Delete b k t = Some (r, t') \<Longrightarrow> reachable b fresh t'"
| reachable_Clear: "reachable b fresh t \<Longrightarrow> reachable b fresh (Clear fundamental fresh t)"

text \<open>A slot of a fresh array with keys and values of type \<open>nat\<close>, for the concrete instances.\<close>

definition slot0 :: "(nat, nat) RBTreeNode" where
  "slot0 = \<lparr>fatherIndex = 0, leftIndex = 0, rightIndex = 0, color = Red, key = 0, val = 0\<rparr>"

text \<open>
  The 16-bit tree of capacity 4 after \<open>Insert(20,200)\<close>, \<open>Insert(10,100)\<close>, \<open>Insert(30,300)\<close>.
\<close>

definition example3 :: "(nat, nat) RBTree" where
  "example3 = \<lparr>nodeCount = 3, rootIndex = 0, arraySize = 4, bitLength = 16,
     nodes = [\<lparr>fatherIndex = 65535, leftIndex = 1, rightIndex = 2, color = Black, key = 20, val = 200\<rparr>,
              \<lparr>fatherIndex = 0, leftIndex = 65535, rightIndex = 65535, color = Red, key = 10, val = 100\<rparr>,
              \<lparr>fatherIndex = 0, leftIndex = 65535, rightIndex = 65535, color = Red, key = 30, val = 300\<rparr>,
              slot0]\<rparr>"

section \<open>The tree stored in the array\<close>

text \<open>
  The abstraction: a binary tree of slot positions. \<open>linked M ns p t\<close> says that the
  links of the slots of \<open>t\<close> in the array \<open>ns\<close> are those of \<open>t\<close>, under the parent \<open>p\<close>, with
  \<open>M\<close> as the sentinel. Contexts (trees with a hole) describe the path from a slot to the
  root, which the loops that walk upwards follow.
\<close>

fun rootOf :: "nat \<Rightarrow> nat tree \<Rightarrow> nat" where
  "rootOf M Leaf = M"
| "rootOf M (Node l a r) = a"

fun linked :: "nat \<Rightarrow> ('k, 'v) RBTreeNode list \<Rightarrow> nat \<Rightarrow> nat tree \<Rightarrow> bool" where
  "linked M ns p Leaf = True"
| "linked M ns p (Node l a r) =
     (a \<noteq> M \<and> fatherIndex (ns ! a) = p \<and> leftIndex (ns ! a) = rootOf M l
      \<and> rightIndex (ns ! a) = rootOf M r \<and> linked M ns a l \<and> linked M ns a r)"

definition keysOf :: "('k, 'v) RBTreeNode list \<Rightarrow> nat tree \<Rightarrow> 'k list" where
  "keysOf ns t = map (\<lambda>i. key (ns ! i)) (inorder t)"

fun blackHeight :: "('k, 'v) RBTreeNode list \<Rightarrow> nat tree \<Rightarrow> nat" where
  "blackHeight ns Leaf = 0"
| "blackHeight ns (Node l a r) = blackHeight ns l + (if color (ns ! a) = Black then 1 else 0)"

fun colorOf :: "('k, 'v) RBTreeNode list \<Rightarrow> nat tree \<Rightarrow> Color" where
  "colorOf ns Leaf = Black"
| "colorOf ns (Node l a r) = color (ns ! a)"

fun redBlack :: "('k, 'v) RBTreeNode list \<Rightarrow> nat tree \<Rightarrow> bool" where
  "redBlack ns Leaf = True"
| "redBlack ns (Node l a r) =
     (redBlack ns l \<and> redBlack ns r \<and> blackHeight ns l = blackHeight ns r
      \<and> (color (ns ! a) = Red \<longrightarrow> colorOf ns l = Black \<and> colorOf ns r = Black))"

definition represents :: "nat \<Rightarrow> ('k, 'v) RBTree \<Rightarrow> nat tree \<Rightarrow> bool" where
  "represents b s t \<longleftrightarrow>
     linked (MaxNodeCount b) (nodes s) (MaxNodeCount b) t
     \<and> (nodeCount s \<noteq> 0 \<longrightarrow> rootIndex s = rootOf (MaxNodeCount b) t)
     \<and> distinct (inorder t)
     \<and> set_tree t = {0..<nodeCount s}
     \<and> nodeCount s \<le> arraySize s
     \<and> arraySize s = length (nodes s)
     \<and> arraySize s \<le> MaxNodeCount b"

definition invariant :: "nat \<Rightarrow> ('k::linorder, 'v) RBTree \<Rightarrow> bool" where
  "invariant b s \<longleftrightarrow>
     (\<exists>t. represents b s t \<and> sorted_wrt (<) (keysOf (nodes s) t)
          \<and> redBlack (nodes s) t \<and> colorOf (nodes s) t = Black)"

definition pairs :: "('k, 'v) RBTree \<Rightarrow> ('k \<times> 'v) set" where
  "pairs s = (\<lambda>i. (key (nodes s ! i), val (nodes s ! i))) ` {0..<nodeCount s}"

datatype ctx = Top | InL ctx nat "nat tree" | InR "nat tree" nat ctx

fun plug :: "ctx \<Rightarrow> nat tree \<Rightarrow> nat tree" where
  "plug Top t = t"
| "plug (InL c a r) t = plug c (Node t a r)"
| "plug (InR l a c) t = plug c (Node l a t)"

fun comp :: "ctx \<Rightarrow> ctx \<Rightarrow> ctx" where
  "comp Top d = d"
| "comp (InL c a r) d = InL (comp c d) a r"
| "comp (InR l a c) d = InR l a (comp c d)"

fun cpar :: "nat \<Rightarrow> ctx \<Rightarrow> nat" where
  "cpar p Top = p"
| "cpar p (InL c a r) = a"
| "cpar p (InR l a c) = a"

fun croot :: "ctx \<Rightarrow> nat \<Rightarrow> nat" where
  "croot Top h = h"
| "croot (InL c a r) h = croot c a"
| "croot (InR l a c) h = croot c a"

fun before :: "ctx \<Rightarrow> nat list" where
  "before Top = []"
| "before (InL c a r) = before c"
| "before (InR l a c) = before c @ inorder l @ [a]"

fun after :: "ctx \<Rightarrow> nat list" where
  "after Top = []"
| "after (InL c a r) = a # inorder r @ after c"
| "after (InR l a c) = after c"

fun clinked :: "nat \<Rightarrow> ('k, 'v) RBTreeNode list \<Rightarrow> nat \<Rightarrow> ctx \<Rightarrow> nat \<Rightarrow> bool" where
  "clinked M ns p Top h = True"
| "clinked M ns p (InL c a r) h =
     (a \<noteq> M \<and> fatherIndex (ns ! a) = cpar p c \<and> leftIndex (ns ! a) = h
      \<and> rightIndex (ns ! a) = rootOf M r \<and> linked M ns a r \<and> clinked M ns p c a)"
| "clinked M ns p (InR l a c) h =
     (a \<noteq> M \<and> fatherIndex (ns ! a) = cpar p c \<and> leftIndex (ns ! a) = rootOf M l
      \<and> rightIndex (ns ! a) = h \<and> linked M ns a l \<and> clinked M ns p c a)"

section \<open>The live count along the operations\<close>

lemma MaxNodeCount_pos: "0 < MaxNodeCount b"
  by (simp add: MaxNodeCount_def)






















section \<open>Construction and Transform at concrete inputs\<close>

lemma and_MaxNodeCount:
  assumes "sz \<le> MaxNodeCount b"
  shows "sz AND MaxNodeCount b = sz"
proof -
  have A: "sz AND mask n = sz" if "sz \<le> mask n" for n
  proof -
    have "sz < 2 ^ n"
      using that by (simp add: mask_eq_exp_minus_1)
        (metis Suc_pred le_imp_less_Suc zero_less_numeral zero_less_power)
    then have "take_bit n sz = sz" by (simp add: take_bit_nat_eq_self_iff)
    then show ?thesis by (simp add: take_bit_eq_mask)
  qed
  have M: "MaxNodeCount b = mask 16 \<or> MaxNodeCount b = mask 32 \<or> MaxNodeCount b = mask 64"
    by (simp add: MaxNodeCount_def mask_eq_exp_minus_1)
  from M assms A show ?thesis by metis
qed

lemma CreateSize_fields:
  "0 < sz \<Longrightarrow> sz \<le> MaxNodeCount b \<Longrightarrow> arraySize (CreateSize b fresh sz) = sz"
  "nodeCount (CreateSize b fresh sz) = 0"
  "rootIndex (CreateSize b fresh sz) = 0"
  "bitLength (CreateSize b fresh sz) = b"
  by (simp_all add: CreateSize_def and_MaxNodeCount Let_def)

section \<open>Lookups on the stored tree\<close>

subsection \<open>Reading a slot after a field write\<close>

lemma length_set [simp]:
  "length (setFather i x ns) = length ns" "length (setLeft i x ns) = length ns"
  "length (setRight i x ns) = length ns" "length (setColor i c ns) = length ns"
  "length (setKey i k ns) = length ns" "length (setVal i v ns) = length ns"
  by (simp_all add: setFather_def setLeft_def setRight_def setColor_def setKey_def setVal_def)

lemma nth_setFather:
  "setFather i x ns ! j = (if j = i \<and> i < length ns then (ns ! i)\<lparr>fatherIndex := x\<rparr> else ns ! j)"
  by (cases "i < length ns") (auto simp: setFather_def list_update_beyond)

lemma nth_setLeft:
  "setLeft i x ns ! j = (if j = i \<and> i < length ns then (ns ! i)\<lparr>leftIndex := x\<rparr> else ns ! j)"
  by (cases "i < length ns") (auto simp: setLeft_def list_update_beyond)

lemma nth_setRight:
  "setRight i x ns ! j = (if j = i \<and> i < length ns then (ns ! i)\<lparr>rightIndex := x\<rparr> else ns ! j)"
  by (cases "i < length ns") (auto simp: setRight_def list_update_beyond)

lemma nth_setColor:
  "setColor i c ns ! j = (if j = i \<and> i < length ns then (ns ! i)\<lparr>color := c\<rparr> else ns ! j)"
  by (cases "i < length ns") (auto simp: setColor_def list_update_beyond)

lemma nth_setKey:
  "setKey i k ns ! j = (if j = i \<and> i < length ns then (ns ! i)\<lparr>key := k\<rparr> else ns ! j)"
  by (cases "i < length ns") (auto simp: setKey_def list_update_beyond)

lemma nth_setVal:
  "setVal i v ns ! j = (if j = i \<and> i < length ns then (ns ! i)\<lparr>val := v\<rparr> else ns ! j)"
  by (cases "i < length ns") (auto simp: setVal_def list_update_beyond)

lemma father_set [simp]:
  "fatherIndex (setFather i x ns ! j) = (if j = i \<and> i < length ns then x else fatherIndex (ns ! j))"
  "fatherIndex (setLeft i x ns ! j) = fatherIndex (ns ! j)"
  "fatherIndex (setRight i x ns ! j) = fatherIndex (ns ! j)"
  "fatherIndex (setColor i c ns ! j) = fatherIndex (ns ! j)"
  "fatherIndex (setKey i k ns ! j) = fatherIndex (ns ! j)"
  "fatherIndex (setVal i v ns ! j) = fatherIndex (ns ! j)"
  by (simp_all add: nth_setFather nth_setLeft nth_setRight nth_setColor nth_setKey nth_setVal)

lemma left_set [simp]:
  "leftIndex (setFather i x ns ! j) = leftIndex (ns ! j)"
  "leftIndex (setLeft i x ns ! j) = (if j = i \<and> i < length ns then x else leftIndex (ns ! j))"
  "leftIndex (setRight i x ns ! j) = leftIndex (ns ! j)"
  "leftIndex (setColor i c ns ! j) = leftIndex (ns ! j)"
  "leftIndex (setKey i k ns ! j) = leftIndex (ns ! j)"
  "leftIndex (setVal i v ns ! j) = leftIndex (ns ! j)"
  by (simp_all add: nth_setFather nth_setLeft nth_setRight nth_setColor nth_setKey nth_setVal)

lemma right_set [simp]:
  "rightIndex (setFather i x ns ! j) = rightIndex (ns ! j)"
  "rightIndex (setLeft i x ns ! j) = rightIndex (ns ! j)"
  "rightIndex (setRight i x ns ! j) = (if j = i \<and> i < length ns then x else rightIndex (ns ! j))"
  "rightIndex (setColor i c ns ! j) = rightIndex (ns ! j)"
  "rightIndex (setKey i k ns ! j) = rightIndex (ns ! j)"
  "rightIndex (setVal i v ns ! j) = rightIndex (ns ! j)"
  by (simp_all add: nth_setFather nth_setLeft nth_setRight nth_setColor nth_setKey nth_setVal)

lemma color_set [simp]:
  "color (setFather i x ns ! j) = color (ns ! j)"
  "color (setLeft i x ns ! j) = color (ns ! j)"
  "color (setRight i x ns ! j) = color (ns ! j)"
  "color (setColor i c ns ! j) = (if j = i \<and> i < length ns then c else color (ns ! j))"
  "color (setKey i k ns ! j) = color (ns ! j)"
  "color (setVal i v ns ! j) = color (ns ! j)"
  by (simp_all add: nth_setFather nth_setLeft nth_setRight nth_setColor nth_setKey nth_setVal)

lemma key_set [simp]:
  "key (setFather i x ns ! j) = key (ns ! j)"
  "key (setLeft i x ns ! j) = key (ns ! j)"
  "key (setRight i x ns ! j) = key (ns ! j)"
  "key (setColor i c ns ! j) = key (ns ! j)"
  "key (setKey i k ns ! j) = (if j = i \<and> i < length ns then k else key (ns ! j))"
  "key (setVal i v ns ! j) = key (ns ! j)"
  by (simp_all add: nth_setFather nth_setLeft nth_setRight nth_setColor nth_setKey nth_setVal)

lemma val_set [simp]:
  "val (setFather i x ns ! j) = val (ns ! j)"
  "val (setLeft i x ns ! j) = val (ns ! j)"
  "val (setRight i x ns ! j) = val (ns ! j)"
  "val (setColor i c ns ! j) = val (ns ! j)"
  "val (setKey i k ns ! j) = val (ns ! j)"
  "val (setVal i v ns ! j) = (if j = i \<and> i < length ns then v else val (ns ! j))"
  by (simp_all add: nth_setFather nth_setLeft nth_setRight nth_setColor nth_setKey nth_setVal)

subsection \<open>Trees in the array\<close>

lemma rootOf_in_tree: "t \<noteq> Leaf \<Longrightarrow> rootOf M t \<in> set_tree t"
  by (cases t) auto

lemma rootOf_cases: "rootOf M t = M \<and> t = Leaf \<or> rootOf M t \<in> set_tree t \<and> t \<noteq> Leaf"
  by (cases t) auto

lemma linked_not_M: "linked M ns p t \<Longrightarrow> M \<notin> set_tree t"
  by (induction t arbitrary: p) auto

lemma linked_rootOf_M: "linked M ns p t \<Longrightarrow> rootOf M t = M \<longleftrightarrow> t = Leaf"
  by (cases t) auto

lemma linked_cong:
  "(\<And>a. a \<in> set_tree t \<Longrightarrow> fatherIndex (ns' ! a) = fatherIndex (ns ! a)
        \<and> leftIndex (ns' ! a) = leftIndex (ns ! a) \<and> rightIndex (ns' ! a) = rightIndex (ns ! a))
   \<Longrightarrow> linked M ns' p t = linked M ns p t"
  by (induction t arbitrary: p) auto

lemma linked_reparent:
  assumes "linked M ns p t" and "distinct (inorder t)"
    and "\<And>a. a \<in> set_tree t \<Longrightarrow> a \<noteq> rootOf M t \<Longrightarrow> fatherIndex (ns' ! a) = fatherIndex (ns ! a)"
    and "\<And>a. a \<in> set_tree t \<Longrightarrow>
            leftIndex (ns' ! a) = leftIndex (ns ! a) \<and> rightIndex (ns' ! a) = rightIndex (ns ! a)"
    and "t \<noteq> Leaf \<Longrightarrow> fatherIndex (ns' ! rootOf M t) = p'"
  shows "linked M ns' p' t"
proof (cases t)
  case Leaf
  then show ?thesis by simp
next
  case (Node l a r)
  have "linked M ns' a l = linked M ns a l" "linked M ns' a r = linked M ns a r"
    using assms(2-4) Node by (auto intro!: linked_cong)
  with assms Node show ?thesis by auto
qed

lemma linked_set [simp]:
  "i \<notin> set_tree t \<Longrightarrow> linked M (setFather i x ns) p t = linked M ns p t"
  "i \<notin> set_tree t \<Longrightarrow> linked M (setLeft i x ns) p t = linked M ns p t"
  "i \<notin> set_tree t \<Longrightarrow> linked M (setRight i x ns) p t = linked M ns p t"
  "linked M (setColor i c ns) p t = linked M ns p t"
  "linked M (setKey i k ns) p t = linked M ns p t"
  "linked M (setVal i v ns) p t = linked M ns p t"
  by (auto intro!: linked_cong)

lemma linked_setFather_root:
  assumes "linked M ns p t" and "distinct (inorder t)"
  shows "linked M (setFather (rootOf M t) p' ns) (if t = Leaf \<or> rootOf M t < length ns then p' else p) t"
  using assms by (cases t) auto

subsection \<open>The descents\<close>

lemma leftmost_linked:
  "linked M ns p t \<Longrightarrow> t \<noteq> Leaf \<Longrightarrow> leftmost M ns (rootOf M t) = Some (hd (inorder t))"
proof (induction t arbitrary: p)
  case Leaf
  then show ?case by simp
next
  case (Node l a r)
  show ?case
  proof (cases l)
    case Leaf
    with Node.prems show ?thesis by (subst leftmost.simps) simp
  next
    case (Node l1 a1 r1)
    with Node.prems Node.IH(1)[of a] show ?thesis
      by (subst leftmost.simps) (auto simp: hd_append)
  qed
qed

lemma rightmost_linked:
  "linked M ns p t \<Longrightarrow> t \<noteq> Leaf \<Longrightarrow> rightmost M ns (rootOf M t) = Some (last (inorder t))"
proof (induction t arbitrary: p)
  case Leaf
  then show ?case by simp
next
  case (Node l a r)
  show ?case
  proof (cases r)
    case Leaf
    with Node.prems show ?thesis by (subst rightmost.simps) simp
  next
    case (Node l1 a1 r1)
    with Node.prems Node.IH(2)[of a] show ?thesis
      by (subst rightmost.simps) auto
  qed
qed

lemma SearchLoop_linked:
  assumes "linked M ns p t" and "sorted_wrt (<) (keysOf ns t)" and "t \<noteq> Leaf"
  shows "SearchLoop M ns k (rootOf M t) =
           Some (case filter (\<lambda>i. key (ns ! i) = k) (inorder t) of [] \<Rightarrow> None | i # _ \<Rightarrow> Some (val (ns ! i)))"
  using assms
proof (induction t arbitrary: p)
  case Leaf
  then show ?case by simp
next
  case (Node l a r)
  from Node.prems have sl: "sorted_wrt (<) (keysOf ns l)" and sr: "sorted_wrt (<) (keysOf ns r)"
    and lt: "\<forall>x\<in>set (inorder l). key (ns ! x) < key (ns ! a)"
    and gt: "\<forall>x\<in>set (inorder r). key (ns ! a) < key (ns ! x)"
    by (auto simp: keysOf_def sorted_wrt_append)
  have ll: "linked M ns a l" and lr: "linked M ns a r" using Node.prems by auto
  consider (gt) "k > key (ns ! a)" | (lt) "k < key (ns ! a)" | (eq) "k = key (ns ! a)"
    by (metis not_less_iff_gr_or_eq)
  then show ?case
  proof cases
    case gt
    then have fl: "filter (\<lambda>i. key (ns ! i) = k) (inorder l) = []" using lt by (auto simp: filter_empty_conv)
    show ?thesis
    proof (cases r)
      case Leaf
      with gt fl Node.prems show ?thesis by (subst SearchLoop.simps) auto
    next
      case (Node l1 a1 r1)
      with gt fl Node.prems Node.IH(2)[OF lr sr] show ?thesis by (subst SearchLoop.simps) auto
    qed
  next
    case lt
    then have fr: "filter (\<lambda>i. key (ns ! i) = k) (inorder r) = []" using gt by (auto simp: filter_empty_conv)
    show ?thesis
    proof (cases l)
      case Leaf
      with lt fr Node.prems show ?thesis by (subst SearchLoop.simps) auto
    next
      case (Node l1 a1 r1)
      with lt fr Node.prems Node.IH(1)[OF ll sl] show ?thesis by (subst SearchLoop.simps) auto
    qed
  next
    case eq
    then have fl: "filter (\<lambda>i. key (ns ! i) = k) (inorder l) = []" using lt by (auto simp: filter_empty_conv)
    with eq show ?thesis by (subst SearchLoop.simps) auto
  qed
qed

lemma BiggestSmallerLoop_linked:
  assumes "linked M ns p t" and "sorted_wrt (<) (keysOf ns t)" and "t \<noteq> Leaf"
  shows "BiggestSmallerLoop M ns k cand (rootOf M t) =
           Some (case rev (filter (\<lambda>i. key (ns ! i) < k) (inorder t)) of [] \<Rightarrow> cand | i # _ \<Rightarrow> i)"
  using assms
proof (induction t arbitrary: p cand)
  case Leaf
  then show ?case by simp
next
  case (Node l a r)
  let ?P = "\<lambda>i. key (ns ! i) < k"
  from Node.prems have sl: "sorted_wrt (<) (keysOf ns l)" and sr: "sorted_wrt (<) (keysOf ns r)"
    and lt: "\<forall>x\<in>set (inorder l). key (ns ! x) < key (ns ! a)"
    and gt: "\<forall>x\<in>set (inorder r). key (ns ! a) < key (ns ! x)"
    by (auto simp: keysOf_def sorted_wrt_append)
  have ll: "linked M ns a l" and lr: "linked M ns a r"
    and li: "leftIndex (ns ! a) = rootOf M l" and ri: "rightIndex (ns ! a) = rootOf M r"
    using Node.prems by auto
  show ?case
  proof (cases "k > key (ns ! a)")
    case True
    have step: "BiggestSmallerLoop M ns k cand a =
        (if r = Leaf then Some a else BiggestSmallerLoop M ns k a (rootOf M r))"
      using True ri linked_rootOf_M[OF lr] by (subst BiggestSmallerLoop.simps) auto
    show ?thesis
    proof (cases "r = Leaf")
      case True
      with step \<open>k > key (ns ! a)\<close> show ?thesis by simp
    next
      case False
      with step Node.IH(2)[OF lr sr False, of a] True show ?thesis
        by (cases "rev (filter ?P (inorder r))") auto
    qed
  next
    case False
    then have fr: "filter ?P (inorder r) = []"
      using gt by (auto simp: filter_empty_conv)
    have step: "BiggestSmallerLoop M ns k cand a =
        (if l = Leaf then Some cand else BiggestSmallerLoop M ns k cand (rootOf M l))"
      using False li linked_rootOf_M[OF ll] by (subst BiggestSmallerLoop.simps) auto
    show ?thesis
    proof (cases "l = Leaf")
      case True
      with step fr False show ?thesis by simp
    next
      case nl: False
      with step Node.IH(1)[OF ll sl nl, of cand] fr False show ?thesis by simp
    qed
  qed
qed

lemma SmallestGraterLoop_linked:
  assumes "linked M ns p t" and "sorted_wrt (<) (keysOf ns t)" and "t \<noteq> Leaf"
  shows "SmallestGraterLoop M ns k cand (rootOf M t) =
           Some (case filter (\<lambda>i. k < key (ns ! i)) (inorder t) of [] \<Rightarrow> cand | i # _ \<Rightarrow> i)"
  using assms
proof (induction t arbitrary: p cand)
  case Leaf
  then show ?case by simp
next
  case (Node l a r)
  let ?P = "\<lambda>i. k < key (ns ! i)"
  from Node.prems have sl: "sorted_wrt (<) (keysOf ns l)" and sr: "sorted_wrt (<) (keysOf ns r)"
    and lt: "\<forall>x\<in>set (inorder l). key (ns ! x) < key (ns ! a)"
    and gt: "\<forall>x\<in>set (inorder r). key (ns ! a) < key (ns ! x)"
    by (auto simp: keysOf_def sorted_wrt_append)
  have ll: "linked M ns a l" and lr: "linked M ns a r"
    and li: "leftIndex (ns ! a) = rootOf M l" and ri: "rightIndex (ns ! a) = rootOf M r"
    using Node.prems by auto
  show ?case
  proof (cases "k < key (ns ! a)")
    case True
    have step: "SmallestGraterLoop M ns k cand a =
        (if l = Leaf then Some a else SmallestGraterLoop M ns k a (rootOf M l))"
      using True li linked_rootOf_M[OF ll] by (subst SmallestGraterLoop.simps) auto
    show ?thesis
    proof (cases "l = Leaf")
      case True
      with step \<open>k < key (ns ! a)\<close> show ?thesis by simp
    next
      case False
      with step Node.IH(1)[OF ll sl False, of a] True show ?thesis
        by (cases "filter ?P (inorder l)") auto
    qed
  next
    case False
    then have fl: "filter ?P (inorder l) = []"
      using lt by (auto simp: filter_empty_conv)
    have step: "SmallestGraterLoop M ns k cand a =
        (if r = Leaf then Some cand else SmallestGraterLoop M ns k cand (rootOf M r))"
      using False ri linked_rootOf_M[OF lr] by (subst SmallestGraterLoop.simps) auto
    show ?thesis
    proof (cases "r = Leaf")
      case True
      with step fl False show ?thesis by simp
    next
      case nl: False
      with step Node.IH(2)[OF lr sr nl, of cand] fl False show ?thesis by simp
    qed
  qed
qed

subsection \<open>Contexts\<close>

lemma inorder_plug: "inorder (plug c t) = before c @ inorder t @ after c"
  by (induction c arbitrary: t) simp_all

lemma set_tree_plug: "set_tree (plug c t) = set (before c) \<union> set_tree t \<union> set (after c)"
proof -
  have "set (inorder (plug c t)) = set (before c) \<union> set (inorder t) \<union> set (after c)"
    by (simp only: inorder_plug set_append Un_assoc)
  then show ?thesis by simp
qed

lemma plug_comp: "plug (comp c d) t = plug d (plug c t)"
  by (induction c arbitrary: t) auto

lemma before_comp: "before (comp c d) = before d @ before c"
  by (induction c) auto

lemma after_comp: "after (comp c d) = after c @ after d"
  by (induction c) auto

lemma rootOf_plug: "rootOf M (plug c t) = croot c (rootOf M t)"
  by (induction c arbitrary: t) auto

lemma linked_plug:
  "linked M ns p (plug c t) \<longleftrightarrow> clinked M ns p c (rootOf M t) \<and> linked M ns (cpar p c) t"
  by (induction c arbitrary: t) auto

lemma tree_split: "a \<in> set_tree t \<Longrightarrow> \<exists>c l r. t = plug c (Node l a r)"
proof (induction t)
  case Leaf
  then show ?case by simp
next
  case (Node l b r)
  consider "a = b" | "a \<in> set_tree l" | "a \<in> set_tree r" using Node.prems by auto
  then show ?case
  proof cases
    case 1
    then have "Node l b r = plug Top (Node l a r)" by simp
    then show ?thesis by blast
  next
    case 2
    with Node.IH(1) obtain c l' r' where "l = plug c (Node l' a r')" by blast
    then have "Node l b r = plug (comp c (InL Top b r)) (Node l' a r')" by (simp add: plug_comp)
    then show ?thesis by blast
  next
    case 3
    with Node.IH(2) obtain c l' r' where "r = plug c (Node l' a r')" by blast
    then have "Node l b r = plug (comp c (InR l b Top)) (Node l' a r')" by (simp add: plug_comp)
    then show ?thesis by blast
  qed
qed

lemma distinct_split_unique:
  assumes d: "distinct (xs @ a # ys)" and e: "xs @ a # ys = xs' @ a # ys'"
  shows "xs = xs' \<and> ys = ys'"
proof -
  from d have "a \<notin> set xs" "a \<notin> set ys" by auto
  from append_Cons_eq_iff[OF this] e show ?thesis by blast
qed

lemma tree_split_at:
  assumes "inorder t = xs @ a # ys" and "distinct (inorder t)"
  shows "\<exists>c l r. t = plug c (Node l a r) \<and> before c @ inorder l = xs \<and> inorder r @ after c = ys"
proof -
  have "a \<in> set_tree t" using assms(1) by (metis in_set_conv_decomp set_inorder)
  then obtain c l r where t: "t = plug c (Node l a r)" using tree_split by blast
  then have i: "inorder t = (before c @ inorder l) @ a # (inorder r @ after c)"
    by (simp add: inorder_plug)
  have e: "xs @ a # ys = (before c @ inorder l) @ a # (inorder r @ after c)"
    using assms(1) i by (rule trans[OF sym])
  have d: "distinct (xs @ a # ys)" using assms(2) unfolding assms(1) .
  from distinct_split_unique[OF d e] t show ?thesis by blast
qed

lemma climbFromRight_ctx:
  assumes "clinked M ns M c a" and "fatherIndex (ns ! a) = cpar M c"
    and "distinct (before c @ a # after c)" and "a \<noteq> M"
  shows "climbFromRight M ns a = Some (case after c of [] \<Rightarrow> None | y # _ \<Rightarrow> Some y)"
  using assms
proof (induction c arbitrary: a)
  case Top
  then show ?case by (subst climbFromRight.simps) simp
next
  case (InL c p r)
  have "rootOf M r \<noteq> a" using InL.prems rootOf_cases[of M r] by auto
  with InL.prems show ?case by (subst climbFromRight.simps) auto
next
  case (InR l p c)
  from InR.prems have "climbFromRight M ns p = Some (case after c of [] \<Rightarrow> None | y # _ \<Rightarrow> Some y)"
    by (intro InR.IH) auto
  with InR.prems show ?case by (subst climbFromRight.simps) auto
qed

lemma successorIndex_linked:
  assumes "linked M ns M t" and "distinct (inorder t)" and "inorder t = xs @ a # ys"
  shows "successorIndex M ns a = Some (case ys of [] \<Rightarrow> None | y # _ \<Rightarrow> Some y)"
proof -
  from tree_split_at[OF assms(3,2)] obtain c l r where
    t: "t = plug c (Node l a r)" and xs: "before c @ inorder l = xs" and ys: "inorder r @ after c = ys"
    by blast
  from assms(1) t have cl: "clinked M ns M c a" and la: "linked M ns (cpar M c) (Node l a r)"
    by (simp_all add: linked_plug)
  from la have aM: "a \<noteq> M" and fa: "fatherIndex (ns ! a) = cpar M c"
    and ri: "rightIndex (ns ! a) = rootOf M r" and lr: "linked M ns a r" by simp_all
  show ?thesis
  proof (cases "r = Leaf")
    case True
    have "distinct (before c @ inorder l @ a # after c)"
      using assms(2) t True by (simp add: inorder_plug)
    then have d: "distinct (before c @ a # after c)" by auto
    from climbFromRight_ctx[OF cl fa d aM] True ys ri show ?thesis
      by (simp add: successorIndex_def)
  next
    case False
    then have ne: "inorder r \<noteq> []" by (cases r) auto
    have "rootOf M r \<noteq> M" using linked_rootOf_M[OF lr] False by simp
    with leftmost_linked[OF lr False] ri have "successorIndex M ns a = Some (Some (hd (inorder r)))"
      by (simp add: successorIndex_def)
    moreover from ne ys have "(case ys of [] \<Rightarrow> None | y # _ \<Rightarrow> Some y) = Some (hd (inorder r))"
      by (cases "inorder r") auto
    ultimately show ?thesis by simp
  qed
qed

subsection \<open>Lookups on a state that satisfies the invariant\<close>

lemma sorted_map_hd_le:
  "sorted_wrt (<) (map f xs) \<Longrightarrow> x \<in> set xs \<Longrightarrow> f (hd xs) \<le> (f x :: 'a::linorder)"
  by (cases xs) (auto simp: less_imp_le)

lemma sorted_map_le_last:
  "sorted_wrt (<) (map f xs) \<Longrightarrow> x \<in> set xs \<Longrightarrow> (f x :: 'a::linorder) \<le> f (last xs)"
proof (induction xs rule: rev_induct)
  case Nil
  then show ?case by simp
next
  case (snoc y ys)
  then show ?case by (auto simp: sorted_wrt_append less_imp_le)
qed

lemma sorted_map_filter:
  "sorted_wrt (<) (map f xs) \<Longrightarrow> sorted_wrt (<) (map f (filter P xs))"
  by (induction xs) auto

lemma represents_nonempty:
  "represents b s t \<Longrightarrow> nodeCount s \<noteq> 0 \<Longrightarrow> t \<noteq> Leaf \<and> rootIndex s = rootOf (MaxNodeCount b) t"
  by (auto simp: represents_def)

lemma represents_live: "represents b s t \<Longrightarrow> set_tree t = {0..<nodeCount s}"
  by (simp add: represents_def)

lemma pairs_inorder:
  "represents b s t \<Longrightarrow> pairs s = (\<lambda>i. (key (nodes s ! i), val (nodes s ! i))) ` set_tree t"
  by (simp add: pairs_def represents_def)

lemma hd_inorder_in: "t \<noteq> Leaf \<Longrightarrow> hd (inorder t) \<in> set_tree t"
  by (metis hd_in_set inorder.simps(1) set_inorder tree.exhaust inorder.simps(2) append_is_Nil_conv list.distinct(1))

lemma last_inorder_in: "t \<noteq> Leaf \<Longrightarrow> last (inorder t) \<in> set_tree t"
  by (metis last_in_set inorder.simps(1) set_inorder tree.exhaust inorder.simps(2) append_is_Nil_conv list.distinct(1))

lemma GetMin_invariant:
  assumes "represents b (s :: ('k::linorder, 'v) RBTree) t" and "sorted_wrt (<) (keysOf (nodes s) t)" and "nodeCount s \<noteq> 0"
  shows "\<exists>k v. GetMin b s = Some (Some (k, v)) \<and> (k, v) \<in> pairs s \<and> (\<forall>(k', v')\<in>pairs s. k \<le> k')"
proof -
  let ?M = "MaxNodeCount b" and ?ns = "nodes s"
  from represents_nonempty[OF assms(1,3)] have ne: "t \<noteq> Leaf" and r: "rootIndex s = rootOf ?M t" by auto
  have l: "linked ?M ?ns ?M t" using assms(1) by (simp add: represents_def)
  from leftmost_linked[OF l ne] r assms(3)
  have g: "GetMin b s = Some (Some (key (?ns ! hd (inorder t)), val (?ns ! hd (inorder t))))"
    by (simp add: GetMin_def)
  have m: "(key (?ns ! hd (inorder t)), val (?ns ! hd (inorder t))) \<in> pairs s"
    unfolding pairs_inorder[OF assms(1)] using hd_inorder_in[OF ne] by blast
  have "\<forall>i\<in>set_tree t. key (?ns ! hd (inorder t)) \<le> key (?ns ! i)"
    using sorted_map_hd_le[of "\<lambda>i. key (?ns ! i)" "inorder t"] assms(2) by (auto simp: keysOf_def)
  then have "\<forall>(k', v')\<in>pairs s. key (?ns ! hd (inorder t)) \<le> k'"
    unfolding pairs_inorder[OF assms(1)] by auto
  with g m show ?thesis by blast
qed

lemma GetMax_invariant:
  assumes "represents b (s :: ('k::linorder, 'v) RBTree) t" and "sorted_wrt (<) (keysOf (nodes s) t)" and "nodeCount s \<noteq> 0"
  shows "\<exists>k v. GetMax b s = Some (Some (k, v)) \<and> (k, v) \<in> pairs s \<and> (\<forall>(k', v')\<in>pairs s. k' \<le> k)"
proof -
  let ?M = "MaxNodeCount b" and ?ns = "nodes s"
  from represents_nonempty[OF assms(1,3)] have ne: "t \<noteq> Leaf" and r: "rootIndex s = rootOf ?M t" by auto
  have l: "linked ?M ?ns ?M t" using assms(1) by (simp add: represents_def)
  from rightmost_linked[OF l ne] r assms(3)
  have g: "GetMax b s = Some (Some (key (?ns ! last (inorder t)), val (?ns ! last (inorder t))))"
    by (simp add: GetMax_def)
  have m: "(key (?ns ! last (inorder t)), val (?ns ! last (inorder t))) \<in> pairs s"
    unfolding pairs_inorder[OF assms(1)] using last_inorder_in[OF ne] by blast
  have "\<forall>i\<in>set_tree t. key (?ns ! i) \<le> key (?ns ! last (inorder t))"
    using sorted_map_le_last[of "\<lambda>i. key (?ns ! i)" "inorder t"] assms(2) by (auto simp: keysOf_def)
  then have "\<forall>(k', v')\<in>pairs s. k' \<le> key (?ns ! last (inorder t))"
    unfolding pairs_inorder[OF assms(1)] by auto
  with g m show ?thesis by blast
qed

lemma keys_inj:
  assumes "sorted_wrt (<) (keysOf (ns :: ('k::linorder, 'v) RBTreeNode list) t)"
  shows "i \<in> set_tree t \<Longrightarrow> j \<in> set_tree t \<Longrightarrow> key (ns ! i) = key (ns ! j) \<Longrightarrow> i = j"
proof -
  have "distinct (map (\<lambda>i. key (ns ! i)) (inorder t))"
    using assms by (simp add: keysOf_def strict_sorted_iff)
  then have "inj_on (\<lambda>i. key (ns ! i)) (set (inorder t))" by (simp add: distinct_map)
  then show "i \<in> set_tree t \<Longrightarrow> j \<in> set_tree t \<Longrightarrow> key (ns ! i) = key (ns ! j) \<Longrightarrow> i = j"
    by (auto dest: inj_onD)
qed

lemma pairs_unique:
  assumes "represents b (s :: ('k::linorder, 'v) RBTree) t" and "sorted_wrt (<) (keysOf (nodes s) t)"
  shows "(k, v) \<in> pairs s \<Longrightarrow> (k, v') \<in> pairs s \<Longrightarrow> v = v'"
  unfolding pairs_inorder[OF assms(1)] using keys_inj[OF assms(2)] by auto

lemma Search_invariant:
  assumes "represents b (s :: ('k::linorder, 'v) RBTree) t" and "sorted_wrt (<) (keysOf (nodes s) t)"
  shows "Search b k s = Some (if \<exists>v. (k, v) \<in> pairs s then Some (THE v. (k, v) \<in> pairs s) else None)"
proof -
  let ?M = "MaxNodeCount b" and ?ns = "nodes s"
  let ?f = "filter (\<lambda>i. key (?ns ! i) = k) (inorder t)"
  note uniq = pairs_unique[OF assms]
  show ?thesis
  proof (cases "nodeCount s = 0")
    case True
    then have "pairs s = {}" by (simp add: pairs_def)
    with True show ?thesis by (simp add: Search_def)
  next
    case False
    from represents_nonempty[OF assms(1) False] have ne: "t \<noteq> Leaf" and r: "rootIndex s = rootOf ?M t" by auto
    have l: "linked ?M ?ns ?M t" using assms(1) by (simp add: represents_def)
    from SearchLoop_linked[OF l assms(2) ne, of k] r False
    have S: "Search b k s = Some (case ?f of [] \<Rightarrow> None | i # _ \<Rightarrow> Some (val (?ns ! i)))"
      by (simp add: Search_def)
    show ?thesis
    proof (cases ?f)
      case Nil
      then have "\<not> (\<exists>v. (k, v) \<in> pairs s)"
        unfolding pairs_inorder[OF assms(1)] by (auto simp: filter_empty_conv)
      with S Nil show ?thesis by simp
    next
      case (Cons i rest)
      then have "i \<in> set ?f" by simp
      then have i: "i \<in> set_tree t" "key (?ns ! i) = k" by auto
      then have m: "(k, val (?ns ! i)) \<in> pairs s" unfolding pairs_inorder[OF assms(1)] by force
      with uniq have "(THE v. (k, v) \<in> pairs s) = val (?ns ! i)" by blast
      with S Cons m show ?thesis by auto
    qed
  qed
qed

lemma GetBiggestSmallerThan_invariant:
  assumes "represents b (s :: ('k::linorder, 'v) RBTree) t" and "sorted_wrt (<) (keysOf (nodes s) t)"
  shows "(\<exists>k' v'. GetBiggestSmallerThan b k s = Some (Some (k', v')) \<and> (k', v') \<in> pairs s \<and> k' < k
            \<and> (\<forall>(k'', v'')\<in>pairs s. k'' < k \<longrightarrow> k'' \<le> k'))
       \<or> (GetBiggestSmallerThan b k s = Some None \<and> (\<forall>(k'', v'')\<in>pairs s. \<not> k'' < k))"
proof -
  let ?M = "MaxNodeCount b" and ?ns = "nodes s"
  let ?f = "filter (\<lambda>i. key (?ns ! i) < k) (inorder t)"
  have l: "linked ?M ?ns ?M t" using assms(1) by (simp add: represents_def)
  have I: "IndexBiggestSmallerThan b k s = Some (case rev ?f of [] \<Rightarrow> ?M | i # _ \<Rightarrow> i)"
  proof (cases "nodeCount s = 0")
    case True
    with assms(1) have "t = Leaf" by (auto simp: represents_def)
    with True show ?thesis by (simp add: IndexBiggestSmallerThan_def)
  next
    case False
    from represents_nonempty[OF assms(1) False] BiggestSmallerLoop_linked[OF l assms(2)] False
    show ?thesis by (simp add: IndexBiggestSmallerThan_def)
  qed
  show ?thesis
  proof (cases "?f = []")
    case True
    then have "\<forall>(k'', v'')\<in>pairs s. \<not> k'' < k"
      unfolding pairs_inorder[OF assms(1)] by (auto simp: filter_empty_conv)
    with I True show ?thesis by (simp add: GetBiggestSmallerThan_def)
  next
    case False
    then have r: "rev ?f = last ?f # rev (butlast ?f)"
      using arg_cong[OF append_butlast_last_id[OF False], of rev] by simp
    have "last ?f \<in> set ?f" by (rule last_in_set[OF False])
    then have "last ?f \<in> set (inorder t) \<and> key (?ns ! last ?f) < k" unfolding set_filter by blast
    then have i: "last ?f \<in> set_tree t" "key (?ns ! last ?f) < k" by simp_all
    then have iM: "last ?f \<noteq> ?M" using linked_not_M[OF l] by auto
    have m: "(key (?ns ! last ?f), val (?ns ! last ?f)) \<in> pairs s"
      unfolding pairs_inorder[OF assms(1)] using i by blast
    have "sorted_wrt (<) (map (\<lambda>i. key (?ns ! i)) ?f)"
      using assms(2) by (simp add: keysOf_def sorted_map_filter)
    from sorted_map_le_last[OF this]
    have "\<forall>j\<in>set_tree t. key (?ns ! j) < k \<longrightarrow> key (?ns ! j) \<le> key (?ns ! last ?f)" by auto
    then have mx: "\<forall>(k'', v'')\<in>pairs s. k'' < k \<longrightarrow> k'' \<le> key (?ns ! last ?f)"
      unfolding pairs_inorder[OF assms(1)] by auto
    from I r iM have "GetBiggestSmallerThan b k s = Some (Some (key (?ns ! last ?f), val (?ns ! last ?f)))"
      by (simp add: GetBiggestSmallerThan_def)
    with m i mx show ?thesis by blast
  qed
qed

lemma GetSmallestGraterThan_invariant:
  assumes "represents b (s :: ('k::linorder, 'v) RBTree) t" and "sorted_wrt (<) (keysOf (nodes s) t)"
  shows "(\<exists>k' v'. GetSmallestGraterThan b k s = Some (Some (k', v')) \<and> (k', v') \<in> pairs s \<and> k < k'
            \<and> (\<forall>(k'', v'')\<in>pairs s. k < k'' \<longrightarrow> k' \<le> k''))
       \<or> (GetSmallestGraterThan b k s = Some None \<and> (\<forall>(k'', v'')\<in>pairs s. \<not> k < k''))"
proof -
  let ?M = "MaxNodeCount b" and ?ns = "nodes s"
  let ?f = "filter (\<lambda>i. k < key (?ns ! i)) (inorder t)"
  have l: "linked ?M ?ns ?M t" using assms(1) by (simp add: represents_def)
  have I: "IndexSmallestGraterThan b k s = Some (case ?f of [] \<Rightarrow> ?M | i # _ \<Rightarrow> i)"
  proof (cases "nodeCount s = 0")
    case True
    with assms(1) have "t = Leaf" by (auto simp: represents_def)
    with True show ?thesis by (simp add: IndexSmallestGraterThan_def)
  next
    case False
    from represents_nonempty[OF assms(1) False] SmallestGraterLoop_linked[OF l assms(2)] False
    show ?thesis by (simp add: IndexSmallestGraterThan_def)
  qed
  show ?thesis
  proof (cases "?f = []")
    case True
    then have "\<forall>(k'', v'')\<in>pairs s. \<not> k < k''"
      unfolding pairs_inorder[OF assms(1)] by (auto simp: filter_empty_conv)
    with I True show ?thesis by (simp add: GetSmallestGraterThan_def)
  next
    case False
    then have r: "?f = hd ?f # tl ?f" by simp
    have "hd ?f \<in> set ?f" by (rule hd_in_set[OF False])
    then have "hd ?f \<in> set (inorder t) \<and> k < key (?ns ! hd ?f)" unfolding set_filter by blast
    then have i: "hd ?f \<in> set_tree t" "k < key (?ns ! hd ?f)" by simp_all
    then have iM: "hd ?f \<noteq> ?M" using linked_not_M[OF l] by auto
    have m: "(key (?ns ! hd ?f), val (?ns ! hd ?f)) \<in> pairs s"
      unfolding pairs_inorder[OF assms(1)] using i by blast
    have "sorted_wrt (<) (map (\<lambda>i. key (?ns ! i)) ?f)"
      using assms(2) by (simp add: keysOf_def sorted_map_filter)
    from sorted_map_hd_le[OF this]
    have "\<forall>j\<in>set_tree t. k < key (?ns ! j) \<longrightarrow> key (?ns ! hd ?f) \<le> key (?ns ! j)" by auto
    then have mx: "\<forall>(k'', v'')\<in>pairs s. k < k'' \<longrightarrow> key (?ns ! hd ?f) \<le> k''"
      unfolding pairs_inorder[OF assms(1)] by auto
    from I iM have "GetSmallestGraterThan b k s = Some (Some (key (?ns ! hd ?f), val (?ns ! hd ?f)))"
      by (subst (asm) r) (simp add: GetSmallestGraterThan_def)
    with m i mx show ?thesis by blast
  qed
qed

lemma OrderedCollect_End: "OrderedCollect b s (OrderedEnd b) = Some []"
  by (subst OrderedCollect.simps) simp

lemma OrderedCollect_linked:
  assumes "represents b (s :: ('k::linorder, 'v) RBTree) t" and "nodeCount s \<noteq> 0"
  shows "inorder t = xs @ a # ys \<Longrightarrow>
         OrderedCollect b s \<lparr>currentIndex = a, reachedBegin = False, reachedEnd = False\<rparr>
           = Some (map (\<lambda>i. (key (nodes s ! i), val (nodes s ! i))) (a # ys))"
proof (induction ys arbitrary: xs a)
  case Nil
  let ?M = "MaxNodeCount b" and ?ns = "nodes s"
  have l: "linked ?M ?ns ?M t" and d: "distinct (inorder t)" using assms(1) by (simp_all add: represents_def)
  have "a \<in> set_tree t" using Nil by (metis in_set_conv_decomp set_inorder)
  then have aM: "a \<noteq> ?M" using linked_not_M[OF l] by auto
  from successorIndex_linked[OF l d Nil] aM assms(2)
  have "OrderedNext b s \<lparr>currentIndex = a, reachedBegin = False, reachedEnd = False\<rparr> = Some (OrderedEnd b)"
    by (simp add: OrderedNext_def OrderedEnd_def)
  then show ?case
    by (subst OrderedCollect.simps) (simp add: OrderedCollect_End, simp add: OrderedEnd_def)
next
  case (Cons y ys)
  let ?M = "MaxNodeCount b" and ?ns = "nodes s"
  have l: "linked ?M ?ns ?M t" and d: "distinct (inorder t)" using assms(1) by (simp_all add: represents_def)
  have "a \<in> set_tree t" using Cons.prems by (metis in_set_conv_decomp set_inorder)
  then have aM: "a \<noteq> ?M" using linked_not_M[OF l] by auto
  from successorIndex_linked[OF l d Cons.prems] aM assms(2)
  have n: "OrderedNext b s \<lparr>currentIndex = a, reachedBegin = False, reachedEnd = False\<rparr>
      = Some \<lparr>currentIndex = y, reachedBegin = False, reachedEnd = False\<rparr>"
    by (simp add: OrderedNext_def)
  have "inorder t = (xs @ [a]) @ y # ys" using Cons.prems by simp
  from Cons.IH[OF this] n show ?case
    by (subst OrderedCollect.simps) (simp add: OrderedEnd_def)
qed

lemma OrderedTraversal_invariant:
  assumes "represents b (s :: ('k::linorder, 'v) RBTree) t"
  shows "OrderedTraversal b s = Some (map (\<lambda>i. (key (nodes s ! i), val (nodes s ! i))) (inorder t))"
proof (cases "nodeCount s = 0")
  case True
  with assms have "t = Leaf" by (auto simp: represents_def)
  with True show ?thesis
    by (simp add: OrderedTraversal_def OrderedBegin_def OrderedCollect_End)
next
  case False
  let ?M = "MaxNodeCount b" and ?ns = "nodes s"
  have l: "linked ?M ?ns ?M t" using assms by (simp add: represents_def)
  from represents_nonempty[OF assms False] have ne: "t \<noteq> Leaf" and r: "rootIndex s = rootOf ?M t" by auto
  then obtain a ys where i: "inorder t = a # ys" by (cases t; cases "inorder t") auto
  then have i': "inorder t = [] @ a # ys" by simp
  from leftmost_linked[OF l ne] r False i
  have "OrderedBegin b s = Some \<lparr>currentIndex = a, reachedBegin = False, reachedEnd = False\<rparr>"
    by (simp add: OrderedBegin_def GetMinIndex_def)
  with OrderedCollect_linked[OF assms False i'] i show ?thesis
    by (simp add: OrderedTraversal_def)
qed

section \<open>Concrete states\<close>

lemma replicate_4: "replicate 4 x = [x, x, x, x]"
  by (simp add: numeral_eq_Suc)

lemma invariant_example3: "invariant 16 example3"
  unfolding invariant_def
  by (rule exI[of _ "Node (Node Leaf 1 Leaf) 0 (Node Leaf 2 Leaf)"])
     (simp add: represents_def example3_def MaxNodeCount_def keysOf_def atLeastLessThan_def
        lessThan_def atLeast_def set_eq_iff, arith)

lemma invariant_CreateSize:
  assumes "sz \<le> MaxNodeCount b"
  shows "invariant b (CreateSize b fresh sz)"
proof -
  have "(if sz = 0 then 1 else sz) \<le> MaxNodeCount b"
    using assms MaxNodeCount_pos[of b] by auto
  then have "(if sz = 0 then 1 else sz) AND MaxNodeCount b \<le> MaxNodeCount b"
    by (simp add: and_MaxNodeCount)
  then show ?thesis
    unfolding invariant_def
    by (intro exI[of _ Leaf]) (simp add: represents_def CreateSize_def Let_def keysOf_def)
qed

lemma pairs_example3: "pairs example3 = {(20, 200), (10, 100), (30, 300)}"
proof -
  have "{0..<3::nat} = {0, 1, 2}" by auto
  then show ?thesis by (simp add: pairs_def example3_def)
qed

text \<open>
  C9 (the code departs from the claim and from its own documentation). The claim: for every
  requested capacity the constructor succeeds, and a request above the width's maximum
  is clamped to the maximum. The constructor \<open>RBTreeArray(uint64_t size)\<close> of the 16-bit
  variant, asked for 70000 slots, throws \<open>std::out_of_range\<close>.
\<close>

theorem C9_constructor_throws_above_maximum:
  "RBTreeArray 16 slot0 70000 = Inl OutOfRange"
  by (simp add: RBTreeArray_def MaxNodeCount_def)

text \<open>
  C5 (the code departs from the claim and from its own documentation). The claim:
  \<open>Transform\<close> fails exactly when the source's live count exceeds the target's maximum or
  an allocation fails. A 16-bit tree built with capacity 65535 and holding one pair is a
  source with live count 1; a default 16-bit target and a successful allocator are given;
  \<open>Transform\<close> returns \<open>false\<close> and leaves the target as it was, because it compares the
  source's array size, not its live count, with the maximum.
\<close>

theorem C5_Transform_refuses_a_fitting_source:
  "\<exists>another. Insert 16 slot0 1 10 (CreateSize 16 slot0 65535) = Some (True, another)
     \<and> nodeCount another = 1 \<and> arraySize another = 65535
     \<and> Transform 16 slot0 True (CreateSize 16 slot0 256) another = (False, CreateSize 16 slot0 256)"
proof -
  have M: "MaxNodeCount 16 = 65535" by (simp add: MaxNodeCount_def)
  have a: "arraySize (CreateSize 16 slot0 65535) = 65535" "arraySize (CreateSize 16 slot0 256) = 256"
    by (simp_all add: CreateSize_fields M)
  show ?thesis
    by (simp add: Insert_def NodeCreate_def Let_def CreateSize_fields(2) a M Transform_def)
qed

text \<open>
  A second departure on the same path: widening keeps the narrow sentinel. After a 16-bit
  tree with one pair is transformed into a 32-bit target, the root's left link is 65535,
  which is neither the 32-bit sentinel nor a slot of the target.
\<close>

lemma Transform_widening_keeps_narrow_sentinel:
  "\<exists>another t. Insert 16 slot0 1 10 (CreateSize 16 slot0 256) = Some (True, another)
     \<and> Transform 32 slot0 True (CreateSize 32 slot0 256) another = (True, t)
     \<and> nodeCount t = 1
     \<and> leftIndex (nodes t ! rootIndex t) = 65535
     \<and> leftIndex (nodes t ! rootIndex t) \<noteq> MaxNodeCount 32
     \<and> \<not> leftIndex (nodes t ! rootIndex t) < arraySize t"
proof -
  have M: "MaxNodeCount 16 = 65535" "MaxNodeCount 32 = 4294967295" by (simp_all add: MaxNodeCount_def)
  have a: "arraySize (CreateSize 16 slot0 256) = 256" "arraySize (CreateSize 32 slot0 256) = 256"
    by (simp_all add: CreateSize_fields M)
  have n: "nodes (CreateSize 16 slot0 256) = replicate 256 slot0"
          "nodes (CreateSize 32 slot0 256) = replicate 256 slot0"
    by (simp_all add: CreateSize_def Let_def and_MaxNodeCount M)
  show ?thesis
    by (simp add: Insert_def NodeCreate_def Let_def CreateSize_fields a M Transform_def
          Assign_def NodeAssign_def n setColor_def)
qed




section \<open>Claims about lookup and iteration\<close>

text \<open>
  C10. On an empty tree \<open>GetMin\<close> and \<open>GetMax\<close> return \<open>false\<close> and write nothing (the result
  \<open>Some None\<close>); on a non-empty tree that satisfies the invariants they return \<open>true\<close> and
  write a stored pair whose key is the least, respectively the greatest, stored key.
\<close>

theorem C10_GetMin_GetMax:
  assumes "invariant b (s :: ('k::linorder, 'v) RBTree)"
  shows "(nodeCount s = 0 \<longrightarrow> GetMin b s = Some None \<and> GetMax b s = Some None)
       \<and> (nodeCount s \<noteq> 0 \<longrightarrow>
            (\<exists>k v. GetMin b s = Some (Some (k, v)) \<and> (k, v) \<in> pairs s \<and> (\<forall>(k', v')\<in>pairs s. k \<le> k'))
          \<and> (\<exists>k v. GetMax b s = Some (Some (k, v)) \<and> (k, v) \<in> pairs s \<and> (\<forall>(k', v')\<in>pairs s. k' \<le> k)))"
proof -
  from assms obtain t where "represents b s t" "sorted_wrt (<) (keysOf (nodes s) t)"
    by (auto simp: invariant_def)
  from GetMin_invariant[OF this] GetMax_invariant[OF this] show ?thesis
    by (simp add: GetMin_def GetMax_def)
qed

theorem C10_GetMin_GetMax_witness:
  "invariant 16 example3 \<and> nodeCount example3 \<noteq> 0
   \<and> (\<exists>k v. GetMin 16 example3 = Some (Some (k, v)) \<and> (k, v) \<in> pairs example3
          \<and> (\<forall>(k', v')\<in>pairs example3. k \<le> k'))
   \<and> (\<exists>k v. GetMax 16 example3 = Some (Some (k, v)) \<and> (k, v) \<in> pairs example3
          \<and> (\<forall>(k', v')\<in>pairs example3. k' \<le> k))
   \<and> invariant 16 (CreateSize 16 slot0 4) \<and> nodeCount (CreateSize 16 slot0 4) = 0
   \<and> GetMin 16 (CreateSize 16 slot0 4) = Some None \<and> GetMax 16 (CreateSize 16 slot0 4) = Some None"
proof -
  have n: "nodeCount example3 \<noteq> 0" by (simp add: example3_def)
  have e: "invariant 16 (CreateSize 16 slot0 4)"
    by (rule invariant_CreateSize) (simp add: MaxNodeCount_def)
  have m: "nodeCount (CreateSize 16 slot0 4) = 0" by (simp add: CreateSize_fields)
  from C10_GetMin_GetMax[OF invariant_example3] C10_GetMin_GetMax[OF e] invariant_example3 n e m
  show ?thesis by simp
qed

text \<open>
  C8. On a tree that satisfies the invariants, \<open>GetBiggestSmallerThan(k)\<close> returns \<open>true\<close> with
  a stored pair whose key is the greatest stored key strictly below \<open>k\<close> when there is one,
  and \<open>false\<close> when there is none; \<open>GetSmallestGraterThan(k)\<close> is the mirror image. The key
  returned is never \<open>k\<close> itself.
\<close>

theorem C8_neighbours:
  assumes "invariant b (s :: ('k::linorder, 'v) RBTree)"
  shows "((\<exists>k' v'. GetBiggestSmallerThan b k s = Some (Some (k', v')) \<and> (k', v') \<in> pairs s
              \<and> k' < k \<and> k' \<noteq> k \<and> (\<forall>(k'', v'')\<in>pairs s. k'' < k \<longrightarrow> k'' \<le> k'))
          \<or> (GetBiggestSmallerThan b k s = Some None \<and> (\<forall>(k'', v'')\<in>pairs s. \<not> k'' < k)))
       \<and> ((\<exists>k' v'. GetSmallestGraterThan b k s = Some (Some (k', v')) \<and> (k', v') \<in> pairs s
              \<and> k < k' \<and> k' \<noteq> k \<and> (\<forall>(k'', v'')\<in>pairs s. k < k'' \<longrightarrow> k' \<le> k''))
          \<or> (GetSmallestGraterThan b k s = Some None \<and> (\<forall>(k'', v'')\<in>pairs s. \<not> k < k'')))"
proof -
  from assms obtain t where r: "represents b s t" "sorted_wrt (<) (keysOf (nodes s) t)"
    by (auto simp: invariant_def)
  from GetBiggestSmallerThan_invariant[OF r, of k] GetSmallestGraterThan_invariant[OF r, of k]
  show ?thesis by (auto simp: less_imp_neq)
qed

theorem C8_neighbours_witness:
  "invariant 16 example3
   \<and> ((\<exists>k' v'. GetBiggestSmallerThan 16 20 example3 = Some (Some (k', v')) \<and> (k', v') \<in> pairs example3
              \<and> k' < 20 \<and> k' \<noteq> 20 \<and> (\<forall>(k'', v'')\<in>pairs example3. k'' < 20 \<longrightarrow> k'' \<le> k'))
          \<or> (GetBiggestSmallerThan 16 20 example3 = Some None \<and> (\<forall>(k'', v'')\<in>pairs example3. \<not> k'' < 20)))
   \<and> ((\<exists>k' v'. GetSmallestGraterThan 16 20 example3 = Some (Some (k', v')) \<and> (k', v') \<in> pairs example3
              \<and> 20 < k' \<and> k' \<noteq> 20 \<and> (\<forall>(k'', v'')\<in>pairs example3. 20 < k'' \<longrightarrow> k' \<le> k''))
          \<or> (GetSmallestGraterThan 16 20 example3 = Some None \<and> (\<forall>(k'', v'')\<in>pairs example3. \<not> 20 < k'')))"
  using C8_neighbours[OF invariant_example3, of 20] invariant_example3 by simp

text \<open>
  C7. On a tree that satisfies the invariants, the loop from \<open>OrderedBegin()\<close> to
  \<open>OrderedEnd()\<close> returns; the pairs it visits are exactly the stored pairs, each once, in
  strictly increasing key order, and their number is the live count (none for an empty
  tree).
\<close>

theorem C7_ordered_iteration:
  assumes "invariant b (s :: ('k::linorder, 'v) RBTree)"
  shows "\<exists>kvs. OrderedTraversal b s = Some kvs \<and> sorted_wrt (<) (map fst kvs) \<and> distinct kvs
           \<and> set kvs = pairs s \<and> length kvs = nodeCount s"
proof -
  from assms obtain t where r: "represents b s t" and so: "sorted_wrt (<) (keysOf (nodes s) t)"
    by (auto simp: invariant_def)
  let ?kvs = "map (\<lambda>i. (key (nodes s ! i), val (nodes s ! i))) (inorder t)"
  have 1: "OrderedTraversal b s = Some ?kvs" by (rule OrderedTraversal_invariant[OF r])
  have 2: "sorted_wrt (<) (map fst ?kvs)" using so by (simp add: keysOf_def comp_def)
  then have "distinct (map fst ?kvs)" by (simp add: strict_sorted_iff)
  then have 3: "distinct ?kvs" by (metis distinct_map)
  have 4: "set ?kvs = pairs s" using pairs_inorder[OF r] by simp
  have "distinct (inorder t)" "set (inorder t) = {0..<nodeCount s}"
    using r by (simp_all add: represents_def)
  then have "length (inorder t) = nodeCount s"
    by (metis card_atLeastLessThan distinct_card minus_nat.diff_0)
  then have 5: "length ?kvs = nodeCount s" by simp
  from 1 2 3 4 5 show ?thesis by blast
qed

theorem C7_ordered_iteration_witness:
  "invariant 16 example3
   \<and> (\<exists>kvs. OrderedTraversal 16 example3 = Some kvs \<and> sorted_wrt (<) (map fst kvs) \<and> distinct kvs
           \<and> set kvs = pairs example3 \<and> length kvs = nodeCount example3)"
  using C7_ordered_iteration[OF invariant_example3] invariant_example3 by simp

end
